theory Spec2Isabelle
  imports Complex_Main "HOL-Library.AList" "HOL-Library.Char_ord" "HOL-Library.List_Lexorder"
    "HOL-Library.Sublist"
begin

section \<open>Python values\<close>

text \<open>
  The launcher reads its configuration and the mounts file with \<^verbatim>\<open>json.load\<close>, so
  every value it handles is \<^verbatim>\<open>None\<close>, a bool, an int, a float, a str, a list or a
  dict whose keys are strings. A float is modelled by its exact value (a rational);
  the non-finite floats are left out, they compare unequal to every number the code
  compares with. A dict is an association list in insertion order; a Python dict never
  holds a key twice.
\<close>

datatype pyval =
    PNone
  | PBool bool
  | PInt int
  | PFloat rat
  | PStr string
  | PList "pyval list"
  | PDict "(string \<times> pyval) list"

datatype error =
    KeyError
  | NotImplementedError
  | ValueError
  | TypeError
  | AttributeError
  | AssertionError
  | IndexError
  | UnboundLocalError
  | APIError
  | OSError
  | SystemExit int

text \<open>Sequencing of statements that may raise: the first exception ends the
  computation.\<close>

definition and_then :: "error + 'a \<Rightarrow> ('a \<Rightarrow> error + 'b) \<Rightarrow> error + 'b" where
  "and_then r f = (case r of Inl e \<Rightarrow> Inl e | Inr x \<Rightarrow> f x)"

text \<open>A \<^verbatim>\<open>for\<close> loop whose body may raise.\<close>

fun for_each :: "('a \<Rightarrow> 's \<Rightarrow> error + 's) \<Rightarrow> 'a list \<Rightarrow> 's \<Rightarrow> error + 's" where
  "for_each body [] s = Inr s"
| "for_each body (x # xs) s = and_then (body x s) (for_each body xs)"

text \<open>\<^verbatim>\<open>x == c\<close> for a float literal \<open>c\<close>: bool is a subclass of int, and ints and
  floats compare by value; every other value is unequal to a number.\<close>

fun eq_float :: "pyval \<Rightarrow> rat \<Rightarrow> bool" where
  "eq_float (PBool b) c = ((if b then 1 else 0) = c)"
| "eq_float (PInt i) c = (of_int i = c)"
| "eq_float (PFloat q) c = (q = c)"
| "eq_float _ c = False"

text \<open>The truth value of \<^verbatim>\<open>if x:\<close>.\<close>

fun truthy :: "pyval \<Rightarrow> bool" where
  "truthy PNone = False"
| "truthy (PBool b) = b"
| "truthy (PInt i) = (i \<noteq> 0)"
| "truthy (PFloat q) = (q \<noteq> 0)"
| "truthy (PStr s) = (s \<noteq> [])"
| "truthy (PList xs) = (xs \<noteq> [])"
| "truthy (PDict kvs) = (kvs \<noteq> [])"

text \<open>\<^verbatim>\<open>isinstance(x, dict)\<close> and \<^verbatim>\<open>isinstance(x, list)\<close>.\<close>

fun is_dict :: "pyval \<Rightarrow> bool" where
  "is_dict (PDict kvs) = True"
| "is_dict _ = False"

fun is_list :: "pyval \<Rightarrow> bool" where
  "is_list (PList xs) = True"
| "is_list _ = False"

text \<open>\<^verbatim>\<open>x.keys()\<close> and \<^verbatim>\<open>x.items()\<close>: only a dict has the attributes.\<close>

fun py_keys :: "pyval \<Rightarrow> error + string list" where
  "py_keys (PDict kvs) = Inr (map fst kvs)"
| "py_keys _ = Inl AttributeError"

fun py_items :: "pyval \<Rightarrow> error + (string \<times> pyval) list" where
  "py_items (PDict kvs) = Inr kvs"
| "py_items _ = Inl AttributeError"

text \<open>\<^verbatim>\<open>x[k]\<close> for a string \<open>k\<close>: a dict raises KeyError on a missing key, a list
  or a str takes integer indices only, the other values are not subscriptable.\<close>

fun py_getitem :: "pyval \<Rightarrow> string \<Rightarrow> error + pyval" where
  "py_getitem (PDict kvs) k = (case map_of kvs k of None \<Rightarrow> Inl KeyError | Some v \<Rightarrow> Inr v)"
| "py_getitem _ k = Inl TypeError"

text \<open>\<^verbatim>\<open>x.get(k, default)\<close>.\<close>

fun py_get :: "pyval \<Rightarrow> string \<Rightarrow> pyval \<Rightarrow> error + pyval" where
  "py_get (PDict kvs) k dflt = Inr (case map_of kvs k of None \<Rightarrow> dflt | Some v \<Rightarrow> v)"
| "py_get _ k dflt = Inl AttributeError"

text \<open>\<^verbatim>\<open>for x in v\<close>: a list yields its elements, a str its characters, a dict its
  keys; the other values are not iterable.\<close>

fun py_iter :: "pyval \<Rightarrow> error + pyval list" where
  "py_iter (PList xs) = Inr xs"
| "py_iter (PStr s) = Inr (map (\<lambda>c. PStr [c]) s)"
| "py_iter (PDict kvs) = Inr (map (\<lambda>kv. PStr (fst kv)) kvs)"
| "py_iter _ = Inl TypeError"

text \<open>Dict keys. A key is found by hash and \<^verbatim>\<open>==\<close>: \<^verbatim>\<open>True\<close>, \<^verbatim>\<open>1\<close> and
  \<^verbatim>\<open>1.0\<close> are one key; lists and dicts are unhashable.\<close>

datatype pykey = KNone | KNum rat | KStr string

fun py_hash :: "pyval \<Rightarrow> error + pykey" where
  "py_hash PNone = Inr KNone"
| "py_hash (PBool b) = Inr (KNum (if b then 1 else 0))"
| "py_hash (PInt i) = Inr (KNum (of_int i))"
| "py_hash (PFloat q) = Inr (KNum q)"
| "py_hash (PStr s) = Inr (KStr s)"
| "py_hash (PList xs) = Inl TypeError"
| "py_hash (PDict kvs) = Inl TypeError"

text \<open>\<^verbatim>\<open>d.update(other)\<close>: the items of \<open>other\<close> are stored in \<open>d\<close> in order.\<close>

definition dict_update :: "('k \<times> 'v) list \<Rightarrow> ('k \<times> 'v) list \<Rightarrow> ('k \<times> 'v) list" where
  "dict_update d other = fold (\<lambda>kv. AList.update (fst kv) (snd kv)) other d"

text \<open>\<^verbatim>\<open>s.split(sep)\<close> for a one-character separator, and \<^verbatim>\<open>sep.join(xs)\<close>.\<close>

fun str_split :: "char \<Rightarrow> string \<Rightarrow> string list" where
  "str_split sep [] = [[]]"
| "str_split sep (c # cs) =
     (if c = sep then [] # str_split sep cs
      else (case str_split sep cs of [] \<Rightarrow> [[c]] | w # ws \<Rightarrow> (c # w) # ws))"

fun str_join :: "string \<Rightarrow> string list \<Rightarrow> string" where
  "str_join sep [] = []"
| "str_join sep [x] = x"
| "str_join sep (x # y # ys) = x @ sep @ str_join sep (y # ys)"

section \<open>types/task.py\<close>

record Task =
  name :: pyval
  docker_image :: pyval
  docker_tag :: pyval
  docker_registry :: pyval
  docker_digest :: pyval

text \<open>\<^verbatim>\<open>Task.__init__\<close>. The module constant \<^verbatim>\<open>OVERRIDE_REGISTRY\<close> is the environment
  variable of that name read at import time (\<open>None\<close> when unset); it is the first
  argument here.\<close>

definition Task_init :: "string option \<Rightarrow> pyval \<Rightarrow> pyval \<Rightarrow> pyval \<Rightarrow> pyval \<Rightarrow> pyval \<Rightarrow> Task" where
  "Task_init OVERRIDE_REGISTRY nm img tag registry digest =
     \<lparr> name = nm,
       docker_image = img,
       docker_tag = tag,
       docker_registry = (case OVERRIDE_REGISTRY of None \<Rightarrow> registry | Some r \<Rightarrow> PStr r),
       docker_digest = digest \<rparr>"

definition mandatory_args :: "string list" where
  "mandatory_args = [''name'', ''docker_image'', ''docker_tag'', ''docker_registry'']"

definition optional_args :: "string list" where
  "optional_args = [''docker_digest'']"

text \<open>\<^verbatim>\<open>Task.from_config\<close>. The loop over \<^verbatim>\<open>optional_args\<close> has one round, for
  \<^verbatim>\<open>docker_digest\<close>: the keyword is passed when the key is there; without it the
  constructor's default \<^verbatim>\<open>None\<close> applies.\<close>

fun from_config :: "string option \<Rightarrow> pyval \<Rightarrow> error + Task" where
  "from_config OVERRIDE_REGISTRY (PDict kvs) =
     (if \<not> list_all (\<lambda>key. key \<in> set mandatory_args) (map fst kvs) then Inl AssertionError
      else
        and_then (py_getitem (PDict kvs) ''name'') (\<lambda>nm.
        and_then (py_getitem (PDict kvs) ''docker_image'') (\<lambda>img.
        and_then (py_getitem (PDict kvs) ''docker_tag'') (\<lambda>tag.
        and_then (py_getitem (PDict kvs) ''docker_registry'') (\<lambda>registry.
        and_then (py_get (PDict kvs) ''docker_digest'' PNone) (\<lambda>digest.
          Inr (Task_init OVERRIDE_REGISTRY nm img tag registry digest)))))))"
| "from_config OVERRIDE_REGISTRY _ = Inl AssertionError"

section \<open>instance_handler: parse_launcher_config\<close>

text \<open>The inner dict of a task group: task name to Task. The task map: task group to
  that dict.\<close>

type_synonym task_dict = "(pykey \<times> Task) list"

type_synonym task_map = "(string \<times> task_dict) list"

text \<open>\<^verbatim>\<open>d["docker_digest"] if "docker_digest" in d.keys() else None\<close> (versions 1.0
  and 2.0).\<close>

definition digest_if_present :: "pyval \<Rightarrow> error + pyval" where
  "digest_if_present d =
     and_then (py_keys d) (\<lambda>ks.
       if ''docker_digest'' \<in> set ks then py_getitem d ''docker_digest'' else Inr PNone)"

text \<open>\<^verbatim>\<open>d.get("docker_digest", None)\<close> (version 3.0).\<close>

definition digest_get :: "pyval \<Rightarrow> error + pyval" where
  "digest_get d = py_get d ''docker_digest'' PNone"

text \<open>Version 1.0, the dict comprehension
  \<^verbatim>\<open>{task: Task(name=task, docker_image=image, docker_tag=docker_data["docker_tag"], ...)
     for task in docker_data["tasks"]}\<close>.
  The iterable is evaluated first; each round evaluates the keyword arguments from left
  to right and then stores under the task, which must be hashable.\<close>

definition v1_task :: "string option \<Rightarrow> string \<Rightarrow> pyval \<Rightarrow> pyval \<Rightarrow> task_dict \<Rightarrow> error + task_dict" where
  "v1_task ov img docker_data task d =
     and_then (py_getitem docker_data ''docker_tag'') (\<lambda>tag.
     and_then (py_getitem docker_data ''docker_registry'') (\<lambda>registry.
     and_then (digest_if_present docker_data) (\<lambda>digest.
     and_then (py_hash task) (\<lambda>k.
       Inr (AList.update k (Task_init ov task (PStr img) tag registry digest) d)))))"

definition v1_comprehension :: "string option \<Rightarrow> string \<Rightarrow> pyval \<Rightarrow> error + task_dict" where
  "v1_comprehension ov img docker_data =
     and_then (py_getitem docker_data ''tasks'') (\<lambda>tv.
     and_then (py_iter tv) (\<lambda>tasks.
       for_each (v1_task ov img docker_data) tasks []))"

text \<open>Version 1.0, one round of the loop over the images. The state of the loop is the
  pair of \<^verbatim>\<open>local_map\<close> and \<^verbatim>\<open>docker_images\<close>.\<close>

definition v1_image ::
  "string option \<Rightarrow> pyval \<Rightarrow> string \<Rightarrow> task_dict \<times> string set \<Rightarrow> error + task_dict \<times> string set" where
  "v1_image ov dockers img st =
     and_then (py_getitem dockers img) (\<lambda>docker_data.
     and_then (py_keys docker_data) (\<lambda>ks.
       if ''tasks'' \<notin> set ks then Inl NotImplementedError
       else and_then (v1_comprehension ov img docker_data) (\<lambda>new.
         Inr (dict_update (fst st) new, insert img (snd st)))))"

text \<open>Versions 2.0 and 3.0, the dict comprehension
  \<^verbatim>\<open>{task: Task(name=task, docker_image=image, docker_tag=tag,
                  docker_registry=image_data[tag]["docker_registry"], docker_digest=...)
     for tag in image_data.keys() for task in image_data[tag]["tasks"]}\<close>.
  The two versions differ in how they read the digest, the first argument here.\<close>

definition tag_task ::
  "(pyval \<Rightarrow> error + pyval) \<Rightarrow> string option \<Rightarrow> string \<Rightarrow> pyval \<Rightarrow> string \<Rightarrow> pyval \<Rightarrow> task_dict
     \<Rightarrow> error + task_dict" where
  "tag_task digest_of ov img image_data tag task d =
     and_then (py_getitem image_data tag) (\<lambda>tag_data.
     and_then (py_getitem tag_data ''docker_registry'') (\<lambda>registry.
     and_then (and_then (py_getitem image_data tag) digest_of) (\<lambda>digest.
     and_then (py_hash task) (\<lambda>k.
       Inr (AList.update k (Task_init ov task (PStr img) (PStr tag) registry digest) d)))))"

definition tag_tasks ::
  "(pyval \<Rightarrow> error + pyval) \<Rightarrow> string option \<Rightarrow> string \<Rightarrow> pyval \<Rightarrow> string \<Rightarrow> task_dict
     \<Rightarrow> error + task_dict" where
  "tag_tasks digest_of ov img image_data tag d =
     and_then (py_getitem image_data tag) (\<lambda>tag_data.
     and_then (py_getitem tag_data ''tasks'') (\<lambda>tv.
     and_then (py_iter tv) (\<lambda>tasks.
       for_each (tag_task digest_of ov img image_data tag) tasks d)))"

definition tag_comprehension ::
  "(pyval \<Rightarrow> error + pyval) \<Rightarrow> string option \<Rightarrow> string \<Rightarrow> pyval \<Rightarrow> error + task_dict" where
  "tag_comprehension digest_of ov img image_data =
     and_then (py_keys image_data) (\<lambda>tags.
       for_each (tag_tasks digest_of ov img image_data) tags [])"

text \<open>Version 2.0, one round of the loop over the images.\<close>

definition v2_image ::
  "string option \<Rightarrow> pyval \<Rightarrow> string \<Rightarrow> task_dict \<times> string set \<Rightarrow> error + task_dict \<times> string set" where
  "v2_image ov dockers img st =
     and_then (py_getitem dockers img) (\<lambda>docker_data.
       if \<not> is_dict docker_data then Inl ValueError
       else and_then (tag_comprehension digest_if_present ov img docker_data) (\<lambda>new.
         Inr (dict_update (fst st) new, insert img (snd st))))"

text \<open>Version 3.0, one round of the loop over the images of a task group, and one round
  of the loop over the task groups (its state: \<^verbatim>\<open>task_map\<close> and
  \<^verbatim>\<open>docker_images\<close>).\<close>

definition v3_image ::
  "string option \<Rightarrow> string \<times> pyval \<Rightarrow> task_dict \<times> string set \<Rightarrow> error + task_dict \<times> string set" where
  "v3_image ov item st =
     (if \<not> is_dict (snd item) then Inl ValueError
      else and_then (tag_comprehension digest_get ov (fst item) (snd item)) (\<lambda>new.
        Inr (dict_update (fst st) new, insert (fst item) (snd st))))"

definition v3_group ::
  "string option \<Rightarrow> string \<times> pyval \<Rightarrow> task_map \<times> string set \<Rightarrow> error + task_map \<times> string set" where
  "v3_group ov item st =
     and_then (py_getitem (snd item) ''dockers'') (\<lambda>dockers.
     and_then (py_items dockers) (\<lambda>images.
     and_then (for_each (v3_image ov) images ([], snd st)) (\<lambda>r.
       Inr (AList.update (fst item) (fst r) (fst st), snd r))))"

text \<open>\<^verbatim>\<open>LocalInstance.parse_launcher_config\<close>; \<^verbatim>\<open>WHLInstance.parse_launcher_config\<close> has
  the same body but for one logging statement. The result is the pair of the task map
  and the set of docker images.\<close>

definition parse_launcher_config :: "string option \<Rightarrow> pyval \<Rightarrow> error + task_map \<times> string set" where
  "parse_launcher_config ov config_data =
     and_then (py_keys config_data) (\<lambda>ks.
       if ''format_version'' \<notin> set ks then Inl KeyError
       else and_then (py_getitem config_data ''format_version'') (\<lambda>version.
         if eq_float version 1 then
           and_then (py_getitem config_data ''dockers'') (\<lambda>dockers.
           and_then (py_keys dockers) (\<lambda>images.
           and_then (for_each (v1_image ov dockers) images ([], {})) (\<lambda>r.
             Inr (AList.update ''container_actions'' (fst r) [], snd r))))
         else if eq_float version 2 then
           and_then (py_getitem config_data ''dockers'') (\<lambda>dockers.
           and_then (py_keys dockers) (\<lambda>images.
           and_then (for_each (v2_image ov dockers) images ([], {})) (\<lambda>r.
             Inr (AList.update ''container_actions'' (fst r) [], snd r))))
         else if eq_float version 3 then
           and_then (py_getitem config_data ''task_group'') (\<lambda>groups.
           and_then (py_items groups) (\<lambda>items.
             for_each (v3_group ov) items ([], {})))
         else Inl NotImplementedError))"

section \<open>docker_handler.py\<close>

text \<open>
  What the launcher reads from the Python runtime and the operating system:
  \<^verbatim>\<open>str()\<close> of a value (how it is formatted into a string; the identity on a
  str), the environment variables, \<^verbatim>\<open>os.path.exists\<close>, \<^verbatim>\<open>os.path.isfile\<close>,
  \<^verbatim>\<open>os.path.realpath\<close>, \<^verbatim>\<open>os.path.expanduser\<close>, the content of a JSON file
  (\<^verbatim>\<open>open\<close> and \<^verbatim>\<open>json.load\<close>, which may raise), the path of the configuration file
  that ships with the package, and the answer of the argument parser.
\<close>

record host =
  py_str :: "pyval \<Rightarrow> string"
  environ :: "string \<Rightarrow> string option"
  path_exists :: "string \<Rightarrow> bool"
  is_file :: "string \<Rightarrow> bool"
  realpath :: "string \<Rightarrow> string"
  expanduser :: "string \<Rightarrow> string"
  read_json :: "string \<Rightarrow> error + pyval"
  packaged_config :: string
  parse_known_args :: "string list \<Rightarrow> error + (string \<times> pyval) list"

text \<open>
  The docker engine and the shell as one invocation meets them: the \<^verbatim>\<open>RepoTags\<close> of
  the local images (in the order of \<^verbatim>\<open>images.list()\<close>, empty for an image that has
  none), whether \<^verbatim>\<open>pull\<close> raises, what \<^verbatim>\<open>containers.run\<close> returns or raises, how
  \<^verbatim>\<open>subprocess.check_call\<close> ends, whether \<^verbatim>\<open>stop\<close> raises, the running containers
  and \<^verbatim>\<open>containers.get\<close>.
\<close>

record container =
  c_id :: string
  short_id :: string
  status :: string
  config_image :: string
  processes :: "string list list"

text \<open>\<^verbatim>\<open>check_call\<close> returns, raises \<^verbatim>\<open>CalledProcessError\<close> (whose \<^verbatim>\<open>output\<close> is
  \<^verbatim>\<open>None\<close> or a text), or raises something else.\<close>

datatype exec_outcome = Returned | CalledProcessError "string option" | Raised error

record engine =
  repo_tags :: "string list list"
  pull_error :: "error option"
  run_result :: "error + container"
  exec_result :: exec_outcome
  stop_error :: "error option"
  running :: "container list"
  get_container :: "pyval \<Rightarrow> error + container"

text \<open>
  The calls that reach the engine and the shell, in order: a pull of a repository and
  tag, a container started from an image (recorded when \<^verbatim>\<open>containers.run\<close> returned
  it), a command handed to the shell, \<^verbatim>\<open>top\<close> and \<^verbatim>\<open>stop\<close> of a container. A
  computation with effects returns its result, or the exception it raised, and the calls
  it made.
\<close>

datatype event =
    Pull string pyval
  | Start string string
  | Exec string
  | Top string
  | Stop string

type_synonym 'a eff = "(error + 'a) \<times> event list"

definition no_effect :: "error + 'a \<Rightarrow> 'a eff" where
  "no_effect r = (r, [])"

definition then_eff :: "'a eff \<Rightarrow> ('a \<Rightarrow> 'b eff) \<Rightarrow> 'b eff" where
  "then_eff m f =
     (case fst m of Inl e \<Rightarrow> (Inl e, snd m)
      | Inr x \<Rightarrow> (fst (f x), snd m @ snd (f x)))"

fun for_each_eff :: "('a \<Rightarrow> 's \<Rightarrow> 's eff) \<Rightarrow> 'a list \<Rightarrow> 's \<Rightarrow> 's eff" where
  "for_each_eff body [] s = (Inr s, [])"
| "for_each_eff body (x # xs) s = then_eff (body x s) (for_each_eff body xs)"

definition DOCKER_MOUNT_FILE :: string where
  "DOCKER_MOUNT_FILE = ''~/.tao_mounts.json''"

definition VALID_DOCKER_ARGS :: "string list" where
  "VALID_DOCKER_ARGS =
     [''user'', ''ports'', ''shm_size'', ''ulimits'', ''privileged'', ''network'', ''tty'']"

text \<open>The handler object; \<open>h_x\<close> stands for \<^verbatim>\<open>self._x\<close>.\<close>

record DockerHandler =
  h_docker_registry :: pyval
  h_image_name :: pyval
  h_docker_mount_file :: string
  h_docker_tag :: pyval
  h_docker_digest :: pyval
  docker_exec_command :: string
  initialized :: bool
  h_container :: "container option"

definition DockerHandler_init ::
  "host \<Rightarrow> pyval \<Rightarrow> pyval \<Rightarrow> pyval \<Rightarrow> pyval \<Rightarrow> string \<Rightarrow> DockerHandler" where
  "DockerHandler_init fs registry image_name tag digest docker_mount_file =
     \<lparr> h_docker_registry = registry,
       h_image_name = image_name,
       h_docker_mount_file = expanduser fs docker_mount_file,
       h_docker_tag = tag,
       h_docker_digest = digest,
       docker_exec_command = ''docker exec'',
       initialized = True,
       h_container = None \<rparr>"

text \<open>A path argument of \<^verbatim>\<open>os.path\<close>: a str; anything else from a JSON file raises
  TypeError.\<close>

fun path_arg :: "pyval \<Rightarrow> error + string" where
  "path_arg (PStr s) = Inr s"
| "path_arg _ = Inl TypeError"

text \<open>\<^verbatim>\<open>_get_mount_env_data\<close>: one round of the loop over the mounts. The mount is
  updated in place and appended.\<close>

fun mount_round :: "host \<Rightarrow> pyval \<Rightarrow> pyval list \<Rightarrow> error + pyval list" where
  "mount_round fs (PDict kvs) mount_points =
     (if \<not> (''source'' \<in> set (map fst kvs) \<and> ''destination'' \<in> set (map fst kvs))
      then Inl AssertionError
      else
        and_then (py_getitem (PDict kvs) ''source'') (\<lambda>source.
        and_then (path_arg source) (\<lambda>src.
        and_then (py_getitem (PDict kvs) ''destination'') (\<lambda>destination.
        and_then (path_arg destination) (\<lambda>dst.
          if \<not> path_exists fs (realpath fs (expanduser fs src)) then Inl ValueError
          else Inr (mount_points @
            [PDict (AList.update ''destination'' (PStr (realpath fs (expanduser fs dst)))
                     (AList.update ''source'' (PStr (realpath fs (expanduser fs src))) kvs))]))))))"
| "mount_round fs _ mount_points = Inl AttributeError"

text \<open>One round of the loop over the environment variables.\<close>

fun env_round :: "pyval \<Rightarrow> pyval list \<Rightarrow> error + pyval list" where
  "env_round (PDict kvs) env_vars =
     (if \<not> (''variable'' \<in> set (map fst kvs) \<and> ''value'' \<in> set (map fst kvs))
      then Inl AssertionError
      else Inr (env_vars @ [PDict kvs]))"
| "env_round _ env_vars = Inl AttributeError"

text \<open>One round of the loop over the items of the mounts file. The state is the triple
  of \<^verbatim>\<open>mount_points\<close>, \<^verbatim>\<open>env_vars\<close> and \<^verbatim>\<open>docker_options\<close>.\<close>

definition mounts_file_item ::
  "host \<Rightarrow> string \<times> pyval \<Rightarrow> pyval list \<times> pyval list \<times> pyval
     \<Rightarrow> error + pyval list \<times> pyval list \<times> pyval" where
  "mounts_file_item fs item st =
     (if fst item = ''Mounts'' then
        and_then (py_iter (snd item)) (\<lambda>mounts.
        and_then (for_each (mount_round fs) mounts (fst st)) (\<lambda>mount_points.
          Inr (mount_points, snd st)))
      else if fst item = ''Envs'' then
        and_then (py_iter (snd item)) (\<lambda>envs.
        and_then (for_each env_round envs (fst (snd st))) (\<lambda>env_vars.
          Inr (fst st, env_vars, snd (snd st))))
      else if fst item = ''DockerOptions'' then Inr (fst st, fst (snd st), snd item)
      else Inl KeyError)"

definition get_mount_env_data :: "host \<Rightarrow> DockerHandler \<Rightarrow> error + pyval list \<times> pyval list \<times> pyval" where
  "get_mount_env_data fs h =
     (if \<not> path_exists fs (h_docker_mount_file h) then Inr ([], [], PDict [])
      else
        and_then (read_json fs (h_docker_mount_file h)) (\<lambda>data.
        and_then (py_keys data) (\<lambda>ks.
          if ''Mounts'' \<notin> set ks then Inl AssertionError
          else and_then (py_items data) (\<lambda>items.
            for_each (mounts_file_item fs) items ([], [], PDict [])))))"

text \<open>The property \<^verbatim>\<open>docker_image\<close>:
  \<^verbatim>\<open>"{}/{}:{}".format(registry, image_name, tag)\<close>.\<close>

definition full_image_name :: "host \<Rightarrow> DockerHandler \<Rightarrow> string" where
  "full_image_name fs h =
     py_str fs (h_docker_registry h) @ ''/'' @ py_str fs (h_image_name h) @ '':''
       @ py_str fs (h_docker_tag h)"

definition handler_docker_image :: "host \<Rightarrow> DockerHandler \<Rightarrow> error + string" where
  "handler_docker_image fs h =
     (if \<not> initialized h then Inl ValueError else Inr (full_image_name fs h))"

text \<open>\<^verbatim>\<open>_check_image_exists\<close>: the loop over the local images; the argument is the
  list of their \<^verbatim>\<open>RepoTags\<close>.\<close>

fun check_image_exists :: "host \<Rightarrow> DockerHandler \<Rightarrow> string list list \<Rightarrow> error + bool" where
  "check_image_exists fs h [] = Inr False"
| "check_image_exists fs h (tags # rest) =
     (if tags \<noteq> [] then
        and_then (handler_docker_image fs h) (\<lambda>img.
          if img \<in> set tags then Inr True else check_image_exists fs h rest)
      else check_image_exists fs h rest)"

text \<open>\<^verbatim>\<open>pull\<close>: an APIError of the engine ends the process with status 1.\<close>

definition pull :: "host \<Rightarrow> engine \<Rightarrow> DockerHandler \<Rightarrow> unit eff" where
  "pull fs eng h =
     ((case pull_error eng of None \<Rightarrow> Inr ()
       | Some e \<Rightarrow> Inl (if e = APIError then SystemExit 1 else e)),
      [Pull (py_str fs (h_docker_registry h) @ ''/'' @ py_str fs (h_image_name h))
            (h_docker_tag h)])"

text \<open>\<^verbatim>\<open>formatted_mounts\<close>: the volumes dict, source path to bind and mode.\<close>

record volume =
  bind :: string
  mode :: string

definition mount_path :: "host \<Rightarrow> pyval \<Rightarrow> string \<Rightarrow> error + string" where
  "mount_path fs mount k =
     and_then (py_getitem mount k) (\<lambda>v.
     and_then (path_arg v) (\<lambda>p. Inr (realpath fs p)))"

definition volume_round :: "host \<Rightarrow> pyval \<Rightarrow> (string \<times> volume) list \<Rightarrow> error + (string \<times> volume) list" where
  "volume_round fs mount volumes =
     and_then (mount_path fs mount ''source'') (\<lambda>source_path.
     and_then (mount_path fs mount ''destination'') (\<lambda>destination_path.
       Inr (AList.update source_path \<lparr> bind = destination_path, mode = ''rw'' \<rparr> volumes)))"

fun formatted_mounts :: "host \<Rightarrow> pyval \<Rightarrow> error + (string \<times> volume) list" where
  "formatted_mounts fs (PList mountpoints_list) = for_each (volume_round fs) mountpoints_list []"
| "formatted_mounts fs _ = Inl AssertionError"

text \<open>\<^verbatim>\<open>formatted_envs\<close>: the list of \<^verbatim>\<open>"{}={}".format(variable, value)\<close>.\<close>

definition env_string :: "host \<Rightarrow> pyval \<Rightarrow> string list \<Rightarrow> error + string list" where
  "env_string fs item env_vars =
     and_then (py_getitem item ''variable'') (\<lambda>variable.
     and_then (py_getitem item ''value'') (\<lambda>val.
       Inr (env_vars @ [py_str fs variable @ ''='' @ py_str fs val])))"

fun formatted_envs :: "host \<Rightarrow> pyval \<Rightarrow> error + string list" where
  "formatted_envs fs (PList env_var_list) = for_each (env_string fs) env_var_list []"
| "formatted_envs fs _ = Inl AssertionError"

text \<open>\<^verbatim>\<open>get_docker_option_args\<close>. The \<^verbatim>\<open>Ulimit\<close> objects are the engine library's; the
  model keeps the dict they are built from.\<close>

definition option_round :: "string \<times> pyval \<Rightarrow> (string \<times> pyval) list \<Rightarrow> error + (string \<times> pyval) list" where
  "option_round item docker_args =
     (if fst item \<notin> set VALID_DOCKER_ARGS then Inl AssertionError
      else if fst item = ''ulimits'' then
        (if \<not> is_dict (snd item) then Inl AssertionError
         else Inr (AList.update (fst item) (snd item) docker_args))
      else Inr (AList.update (fst item) (snd item) docker_args))"

fun get_docker_option_args :: "pyval \<Rightarrow> error + (string \<times> pyval) list" where
  "get_docker_option_args PNone = Inr []"
| "get_docker_option_args (PDict kvs) = for_each option_round kvs []"
| "get_docker_option_args _ = Inl AttributeError"

text \<open>\<^verbatim>\<open>start_container\<close>: the handler with its container set. An APIError of
  \<^verbatim>\<open>containers.run\<close> ends the process with status 1.\<close>

definition start_container ::
  "host \<Rightarrow> engine \<Rightarrow> DockerHandler \<Rightarrow> (string \<times> volume) list \<Rightarrow> string list \<Rightarrow> pyval
     \<Rightarrow> DockerHandler eff" where
  "start_container fs eng h volumes env_vars docker_options =
     then_eff (no_effect (get_docker_option_args docker_options)) (\<lambda>docker_args.
     then_eff (no_effect (handler_docker_image fs h)) (\<lambda>img.
       (case run_result eng of
          Inl e \<Rightarrow> (Inl (if e = APIError then SystemExit 1 else e), [])
        | Inr c \<Rightarrow> (Inr (h\<lparr> h_container := Some c \<rparr>), [Start img (c_id c)]))))"

text \<open>\<^verbatim>\<open>stop_container\<close>; the property \<^verbatim>\<open>container_id\<close> asserts that there is a
  container.\<close>

definition stop_container :: "engine \<Rightarrow> DockerHandler \<Rightarrow> unit eff" where
  "stop_container eng h =
     (case h_container h of
        None \<Rightarrow> (Inl AssertionError, [])
      | Some c \<Rightarrow> ((case stop_error eng of None \<Rightarrow> Inr () | Some e \<Rightarrow> Inl e), [Stop (c_id c)]))"

text \<open>The \<^verbatim>\<open>except subprocess.CalledProcessError\<close> clause of \<^verbatim>\<open>run_container\<close> and of
  \<^verbatim>\<open>run_container_on_ci\<close>: with an output, stop the container if there is one and
  leave with status -1; without, the exception is dropped.\<close>

definition except_clause :: "engine \<Rightarrow> DockerHandler \<Rightarrow> string option \<Rightarrow> unit eff" where
  "except_clause eng h output =
     (case output of
        None \<Rightarrow> (Inr (), [])
      | Some text \<Rightarrow>
          then_eff (if h_container h \<noteq> None then stop_container eng h else (Inr (), [])) (\<lambda>u.
            (Inl (SystemExit (- 1)), [])))"

text \<open>The \<^verbatim>\<open>try\<close> statement around \<^verbatim>\<open>subprocess.check_call\<close> with its
  \<^verbatim>\<open>except\<close> clause.\<close>

definition try_check_call :: "engine \<Rightarrow> DockerHandler \<Rightarrow> string \<Rightarrow> unit eff" where
  "try_check_call eng h formatted_command =
     then_eff (Inr (), [Exec formatted_command]) (\<lambda>u.
       (case exec_result eng of
          Returned \<Rightarrow> (Inr (), [])
        | CalledProcessError output \<Rightarrow> except_clause eng h output
        | Raised e \<Rightarrow> (Inl e, [])))"

text \<open>The \<^verbatim>\<open>finally\<close> clause of \<^verbatim>\<open>run_container\<close>: it runs however the body ended;
  an exception of its own replaces the pending one.\<close>

definition finally_stop :: "engine \<Rightarrow> DockerHandler \<Rightarrow> unit eff \<Rightarrow> unit eff" where
  "finally_stop eng h body =
     (if h_container h = None then body
      else (case fst (stop_container eng h) of
              Inl e \<Rightarrow> (Inl e, snd body @ snd (stop_container eng h))
            | Inr u \<Rightarrow> (fst body, snd body @ snd (stop_container eng h))))"

text \<open>The command line that \<^verbatim>\<open>run_container\<close> hands to the shell:
  \<^verbatim>\<open>"bash -c '{} {} {} {}'".format(docker_exec_command, interactive_option, id, task_command)\<close>.\<close>

definition exec_command_line :: "DockerHandler \<Rightarrow> bool \<Rightarrow> string \<Rightarrow> string \<Rightarrow> string" where
  "exec_command_line h tty cid task_command =
     ''bash -c '' @ [CHR 0x27] @ docker_exec_command h @ '' '' @ (if tty then ''-it'' else ''-i'')
       @ '' '' @ cid @ '' '' @ task_command @ [CHR 0x27]"

definition run_container :: "host \<Rightarrow> engine \<Rightarrow> DockerHandler \<Rightarrow> string \<Rightarrow> unit eff" where
  "run_container fs eng h task_command =
     then_eff (no_effect (check_image_exists fs h (repo_tags eng))) (\<lambda>present.
     then_eff (if \<not> present then pull fs eng h else (Inr (), [])) (\<lambda>u.
     then_eff (no_effect (get_mount_env_data fs h)) (\<lambda>data.
     then_eff (no_effect (formatted_mounts fs (PList (fst data)))) (\<lambda>volumes.
     then_eff (no_effect (formatted_envs fs (PList (fst (snd data))))) (\<lambda>env_variables.
     then_eff (no_effect (py_keys (snd (snd data)))) (\<lambda>ks.
     then_eff (no_effect (if ''tty'' \<in> set ks then py_getitem (snd (snd data)) ''tty''
                          else Inr (PBool True))) (\<lambda>tty.
     then_eff (start_container fs eng h volumes env_variables (snd (snd data))) (\<lambda>h'.
       (case h_container h' of
          None \<Rightarrow> (Inl AttributeError, [])
        | Some c \<Rightarrow>
            finally_stop eng h'
              (try_check_call eng h' (exec_command_line h' (truthy tty) (c_id c) task_command)))))))))))"

text \<open>\<^verbatim>\<open>run_container_on_ci\<close>: one \<^verbatim>\<open>docker run\<close> command line; the handler starts no
  container of its own.\<close>

definition ci_option :: "host \<Rightarrow> string \<times> pyval \<Rightarrow> string list" where
  "ci_option fs item =
     (if fst item = ''privileged'' \<and> truthy (snd item) then [''--privileged''] else [])
     @ (if fst item = ''shm_size'' then [''--shm-size '' @ py_str fs (snd item)] else [])"

definition ci_command_line ::
  "host \<Rightarrow> (string \<times> volume) list \<Rightarrow> string list \<Rightarrow> pyval \<Rightarrow> (string \<times> pyval) list \<Rightarrow> string
     \<Rightarrow> string \<Rightarrow> string" where
  "ci_command_line fs volumes env_variables tty options img task_command =
     str_join '' ''
       ([''docker run'', (if truthy tty then ''-it'' else ''-i''), ''--rm'', ''--gpus all'',
         str_join '' '' (map (\<lambda>v. ''-v '' @ fst v @ '':'' @ bind (snd v) @ '':'' @ mode (snd v)) volumes),
         str_join '' '' (map (\<lambda>e. ''-e '' @ e) env_variables)]
        @ concat (map (ci_option fs) options))
     @ '' '' @ img @ '' '' @ task_command"

definition run_container_on_ci :: "host \<Rightarrow> engine \<Rightarrow> DockerHandler \<Rightarrow> string \<Rightarrow> unit eff" where
  "run_container_on_ci fs eng h task_command =
     then_eff (no_effect (check_image_exists fs h (repo_tags eng))) (\<lambda>present.
     then_eff (if \<not> present then pull fs eng h else (Inr (), [])) (\<lambda>u.
     then_eff (no_effect (get_mount_env_data fs h)) (\<lambda>data.
     then_eff (no_effect (formatted_mounts fs (PList (fst data)))) (\<lambda>volumes.
     then_eff (no_effect (formatted_envs fs (PList (fst (snd data))))) (\<lambda>env_variables.
     then_eff (no_effect (py_get (snd (snd data)) ''tty'' (PBool True))) (\<lambda>tty.
     then_eff (no_effect (py_items (snd (snd data)))) (\<lambda>options.
     then_eff (no_effect (handler_docker_image fs h)) (\<lambda>img.
       try_check_call eng h
         (ci_command_line fs volumes env_variables tty options img task_command)))))))))"

section \<open>instance_handler: the instances\<close>

definition INSTANCE_HANDLER_TASKS :: "string list" where
  "INSTANCE_HANDLER_TASKS = [''list'', ''stop'', ''info'']"

text \<open>The fields of \<^verbatim>\<open>TAOInstance\<close> and of its two subclasses; a \<^verbatim>\<open>WHLInstance\<close> has
  no docker images.\<close>

record TAOInstance =
  task_map :: task_map
  dl_tasks :: "string list"
  docker_images :: "string set option"
  instance_handler_tasks :: "string list"
  current_config_path :: string

datatype launcher = LocalInstance TAOInstance | WHLInstance TAOInstance

definition TAOInstance_init :: "task_map \<Rightarrow> string set option \<Rightarrow> string \<Rightarrow> TAOInstance" where
  "TAOInstance_init tm images config_path =
     \<lparr> task_map = tm,
       dl_tasks = sort (map fst tm),
       docker_images = images,
       instance_handler_tasks = INSTANCE_HANDLER_TASKS,
       current_config_path = config_path \<rparr>"

text \<open>\<^verbatim>\<open>utils.load_config_file\<close>.\<close>

definition load_config_file :: "host \<Rightarrow> string \<Rightarrow> error + pyval" where
  "load_config_file fs config_path =
     (if \<not> path_exists fs config_path then Inl AssertionError else read_json fs config_path)"

text \<open>\<^verbatim>\<open>LocalInstance.from_config\<close> and \<^verbatim>\<open>WHLInstance.from_config\<close>. The module
  \<^verbatim>\<open>task\<close> reads \<^verbatim>\<open>OVERRIDE_REGISTRY\<close> from the environment.\<close>

definition LocalInstance_from_config :: "host \<Rightarrow> string \<Rightarrow> error + launcher" where
  "LocalInstance_from_config fs config_path =
     and_then (load_config_file fs config_path) (\<lambda>config_data.
     and_then (parse_launcher_config (environ fs ''OVERRIDE_REGISTRY'') config_data) (\<lambda>r.
       Inr (LocalInstance (TAOInstance_init (fst r) (Some (snd r)) config_path))))"

definition WHLInstance_from_config :: "host \<Rightarrow> string \<Rightarrow> error + launcher" where
  "WHLInstance_from_config fs config_path =
     and_then (load_config_file fs config_path) (\<lambda>config_data.
     and_then (parse_launcher_config (environ fs ''OVERRIDE_REGISTRY'') config_data) (\<lambda>r.
       Inr (WHLInstance (TAOInstance_init (fst r) None config_path))))"

text \<open>\<^verbatim>\<open>builder.get_launcher\<close>: the instance and the supported task groups.\<close>

definition TAO_DOCKER_DISABLE :: "host \<Rightarrow> string" where
  "TAO_DOCKER_DISABLE fs =
     (case environ fs ''TAO_DOCKER_DISABLE'' of None \<Rightarrow> ''0'' | Some v \<Rightarrow> v)"

fun the_instance :: "launcher \<Rightarrow> TAOInstance" where
  "the_instance (LocalInstance inst) = inst"
| "the_instance (WHLInstance inst) = inst"

definition get_launcher :: "host \<Rightarrow> string \<Rightarrow> error + launcher \<times> string list" where
  "get_launcher fs launcher_config_file =
     (if TAO_DOCKER_DISABLE fs \<notin> {''0'', ''1''} then Inl AssertionError
      else if TAO_DOCKER_DISABLE fs = ''1'' then
        and_then (WHLInstance_from_config fs launcher_config_file) (\<lambda>inst.
          Inr (inst, dl_tasks (the_instance inst)))
      else
        and_then (LocalInstance_from_config fs launcher_config_file) (\<lambda>inst.
          Inr (inst, INSTANCE_HANDLER_TASKS @ dl_tasks (the_instance inst))))"

text \<open>The property \<^verbatim>\<open>handler_map\<close>: one handler for every \<^verbatim>\<open>image:tag\<close> of the task
  map, built anew at every access.\<close>

definition handler_round :: "host \<Rightarrow> pykey \<times> Task \<Rightarrow> (string \<times> DockerHandler) list \<Rightarrow> (string \<times> DockerHandler) list" where
  "handler_round fs item hm =
     (if py_str fs (docker_image (snd item)) @ '':'' @ py_str fs (docker_tag (snd item))
           \<in> set (map fst hm) then hm
      else hm @ [(py_str fs (docker_image (snd item)) @ '':'' @ py_str fs (docker_tag (snd item)),
                  DockerHandler_init fs (docker_registry (snd item)) (docker_image (snd item))
                    (docker_tag (snd item)) (docker_digest (snd item))
                    (case environ fs ''LAUNCHER_MOUNTS'' of None \<Rightarrow> DOCKER_MOUNT_FILE
                     | Some f \<Rightarrow> f))])"

definition handler_map :: "host \<Rightarrow> TAOInstance \<Rightarrow> error + (string \<times> DockerHandler) list" where
  "handler_map fs self =
     (if task_map self = [] then Inl AssertionError
      else Inr (fold (\<lambda>group. fold (handler_round fs) (snd group)) (task_map self) []))"

text \<open>The property \<^verbatim>\<open>_docker_client\<close>: the client of the first handler. All handlers
  talk to the same engine.\<close>

definition docker_client :: "host \<Rightarrow> TAOInstance \<Rightarrow> error + unit" where
  "docker_client fs self =
     and_then (handler_map fs self) (\<lambda>hm. if hm = [] then Inl IndexError else Inr ())"

text \<open>\<^verbatim>\<open>_get_running_containers\<close>: a container is listed once for every handler key
  that occurs in the name of its image.\<close>

definition get_running_containers :: "host \<Rightarrow> engine \<Rightarrow> TAOInstance \<Rightarrow> error + container list" where
  "get_running_containers fs eng self =
     and_then (handler_map fs self) (\<lambda>hm.
       if \<not> length (map fst hm) > 0 then Inl AssertionError
       else and_then (docker_client fs self) (\<lambda>client.
         Inr (concat (map (\<lambda>c. map (\<lambda>img. c)
                              (filter (\<lambda>img. sublist img (config_image c)) (map fst hm)))
                       (running eng)))))"

text \<open>\<^verbatim>\<open>container.stop()\<close>.\<close>

definition stop :: "engine \<Rightarrow> container \<Rightarrow> unit eff" where
  "stop eng c = ((case stop_error eng of None \<Rightarrow> Inr () | Some e \<Rightarrow> Inl e), [Stop (c_id c)])"

text \<open>\<^verbatim>\<open>kill_containers\<close>. The methods of an instance return the instance as they leave
  it, next to their result and the calls they made.\<close>

definition kill_by_id :: "host \<Rightarrow> engine \<Rightarrow> TAOInstance \<Rightarrow> pyval \<Rightarrow> unit \<Rightarrow> unit eff" where
  "kill_by_id fs eng self idx u =
     then_eff (no_effect (docker_client fs self)) (\<lambda>client.
     then_eff (no_effect (get_container eng idx)) (\<lambda>c. stop eng c))"

definition kill_containers ::
  "host \<Rightarrow> engine \<Rightarrow> TAOInstance \<Rightarrow> pyval \<Rightarrow> pyval \<Rightarrow> (error + unit) \<times> TAOInstance \<times> event list" where
  "kill_containers fs eng self container_ids kill_all =
     (let r =
        (if truthy kill_all then
           then_eff (no_effect (get_running_containers fs eng self)) (\<lambda>cs.
             for_each_eff (\<lambda>c u. stop eng c) cs ())
         else (case container_ids of
                 PList ids \<Rightarrow> for_each_eff (kill_by_id fs eng self) ids ()
               | _ \<Rightarrow> (Inr (), [])))
      in (fst r, self, snd r))"

text \<open>\<^verbatim>\<open>list_running_jobs\<close>. The loop over the rows of \<^verbatim>\<open>top\<close> looks for the first
  command whose entry point is a task of the group; the result here is the dict
  \<^verbatim>\<open>command_per_container\<close> that \<^verbatim>\<open>pretty_print\<close> tabulates.\<close>

fun find_command :: "pykey list \<Rightarrow> string list list \<Rightarrow> error + string option" where
  "find_command tasks_per_group [] = Inr None"
| "find_command tasks_per_group (item # rest) =
     (if item = [] then Inl IndexError
      else if length (str_split CHR '' '' (last item)) < 2 then find_command tasks_per_group rest
      else if KStr (last (str_split CHR ''/'' (str_split CHR '' '' (last item) ! 1)))
                \<in> set tasks_per_group
      then Inr (Some (last (str_split CHR ''/'' (str_split CHR '' '' (last item) ! 1)) @ '' ''
                      @ str_join '' '' (drop 2 (str_split CHR '' '' (last item)))))
      else find_command tasks_per_group rest)"

definition job_round ::
  "pykey list \<Rightarrow> container \<Rightarrow> (string \<times> string) list \<Rightarrow> (string \<times> string) list eff" where
  "job_round tasks_per_group c command_per_container =
     then_eff (Inr (), [Top (c_id c)]) (\<lambda>u.
     then_eff (no_effect (find_command tasks_per_group (processes c))) (\<lambda>found.
       (Inr (case found of
               None \<Rightarrow> AList.update (c_id c) [] command_per_container
             | Some command \<Rightarrow> AList.update (c_id c) command command_per_container), [])))"

definition list_running_jobs ::
  "host \<Rightarrow> engine \<Rightarrow> TAOInstance \<Rightarrow> (error + (string \<times> string) list) \<times> TAOInstance \<times> event list" where
  "list_running_jobs fs eng self =
     (let r =
        then_eff (no_effect (get_running_containers fs eng self)) (\<lambda>container_list.
          for_each_eff
            (\<lambda>group. for_each_eff (job_round (map fst (snd group))) container_list)
            (task_map self) [])
      in (fst r, self, snd r))"

text \<open>\<^verbatim>\<open>print_information\<close>: it reads the configuration file again and prints it. Only
  \<^verbatim>\<open>AssertionError\<close> is caught, and ends the process with status -1.
  \<^verbatim>\<open>dict_print\<close> asserts that the configuration is a dict.\<close>

definition print_information ::
  "host \<Rightarrow> TAOInstance \<Rightarrow> pyval \<Rightarrow> (error + bool) \<times> TAOInstance \<times> event list" where
  "print_information fs self verbose =
     ((case load_config_file fs (current_config_path self) of
         Inl e \<Rightarrow> Inl (if e = AssertionError then SystemExit (- 1) else e)
       | Inr config \<Rightarrow>
           (if truthy verbose then (if is_dict config then Inr False else Inl AssertionError)
            else and_then (py_items config) (\<lambda>items. Inr False))),
      self, [])"

text \<open>\<^verbatim>\<open>utils.docker_logged_in\<close>, called with one required registry. Without
  \<^verbatim>\<open>OVERRIDE_REGISTRY\<close> it reads the docker client's configuration file and asserts that
  every required registry is a key of its \<^verbatim>\<open>auths\<close>.\<close>

definition DOCKER_CONFIG :: "host \<Rightarrow> string" where
  "DOCKER_CONFIG fs = expanduser fs ''~/.docker/config.json''"

definition registry_status :: "pyval \<Rightarrow> pyval \<Rightarrow> bool list \<Rightarrow> error + bool list" where
  "registry_status data registry statuses =
     and_then (py_getitem data ''auths'') (\<lambda>auths.
     and_then (py_keys auths) (\<lambda>ks.
       Inr (statuses @ [registry \<in> set (map PStr ks)])))"

definition docker_logged_in :: "host \<Rightarrow> pyval \<Rightarrow> error + unit" where
  "docker_logged_in fs required_registry =
     (if environ fs ''OVERRIDE_REGISTRY'' = None then
        and_then (load_config_file fs (DOCKER_CONFIG fs)) (\<lambda>data.
        and_then (py_keys data) (\<lambda>ks.
          if ''auths'' \<notin> set ks then Inl ValueError
          else
            and_then (for_each (registry_status data)
                       (case required_registry of PList rs \<Rightarrow> rs | r \<Rightarrow> [r]) []) (\<lambda>statuses.
              if list_all (\<lambda>b. b) statuses then Inr () else Inl AssertionError)))
      else Inr ())"

text \<open>
  The arguments of \<^verbatim>\<open>launch_command\<close>: the list of the remaining command-line words, or
  the \<^verbatim>\<open>argparse.Namespace\<close> of the parsed command line (its attributes). The task is a
  name or \<^verbatim>\<open>None\<close>.
\<close>

datatype cli_args = ArgList "string list" | Namespace "(string \<times> pyval) list"

definition getattr :: "(string \<times> pyval) list \<Rightarrow> string \<Rightarrow> error + pyval" where
  "getattr ns a = (case map_of ns a of None \<Rightarrow> Inl AttributeError | Some v \<Rightarrow> Inr v)"

fun task_key :: "string option \<Rightarrow> pykey" where
  "task_key None = KNone"
| "task_key (Some t) = KStr t"

fun task_str :: "string option \<Rightarrow> string" where
  "task_str None = ''None''"
| "task_str (Some t) = t"

text \<open>The command that \<^verbatim>\<open>LocalInstance.launch_command\<close> builds from the arguments: a
  leading \<^verbatim>\<open>run\<close> is dropped, anything else is prefixed with the task; without arguments
  the command is a shell.\<close>

fun local_command :: "string option \<Rightarrow> string list \<Rightarrow> string" where
  "local_command task [] = ''/bin/bash''"
| "local_command task (a # args) =
     (if a = ''run'' then str_join '' '' args
      else task_str task @ '' '' @ str_join '' '' (a # args))"

text \<open>\<^verbatim>\<open>LocalInstance.launch_command\<close>: a task of the task map runs in its container; any
  other task group must be one of the instance handler's own.\<close>

definition launch_in_container ::
  "host \<Rightarrow> engine \<Rightarrow> TAOInstance \<Rightarrow> Task \<Rightarrow> string option \<Rightarrow> cli_args \<Rightarrow> unit eff" where
  "launch_in_container fs eng self t task args =
     (case args of
        Namespace ns \<Rightarrow> (Inl AssertionError, [])
      | ArgList xs \<Rightarrow>
          then_eff (no_effect (docker_logged_in fs (docker_registry t))) (\<lambda>u.
          then_eff (no_effect (handler_map fs self)) (\<lambda>hm.
          then_eff (no_effect
              (case map_of hm (py_str fs (docker_image t) @ '':'' @ py_str fs (docker_tag t)) of
                 None \<Rightarrow> Inl KeyError | Some h \<Rightarrow> Inr h)) (\<lambda>docker_handler.
          then_eff (no_effect (handler_docker_image fs docker_handler)) (\<lambda>img.
            if environ fs ''CI_PROJECT_DIR'' \<noteq> None
            then run_container_on_ci fs eng docker_handler (local_command task xs)
            else run_container fs eng docker_handler (local_command task xs))))))"

definition instance_task ::
  "host \<Rightarrow> engine \<Rightarrow> TAOInstance \<Rightarrow> string \<Rightarrow> (string \<times> pyval) list
     \<Rightarrow> (error + unit) \<times> TAOInstance \<times> event list" where
  "instance_task fs eng self task_group ns =
     (if task_group = ''list'' then
        (case list_running_jobs fs eng self of (r, self', calls) \<Rightarrow>
           (and_then r (\<lambda>table. Inr ()), self', calls))
      else if task_group = ''stop'' then
        (case and_then (getattr ns ''container_id'') (\<lambda>ids.
              and_then (getattr ns ''all'') (\<lambda>kill_all. Inr (ids, kill_all))) of
           Inl e \<Rightarrow> (Inl e, self, [])
         | Inr a \<Rightarrow> kill_containers fs eng self (fst a) (snd a))
      else if task_group = ''info'' then
        (case getattr ns ''verbose'' of
           Inl e \<Rightarrow> (Inl e, self, [])
         | Inr verbose \<Rightarrow>
             (case print_information fs self verbose of (r, self', calls) \<Rightarrow>
                (and_then r (\<lambda>b. Inr ()), self', calls)))
      else (Inl NotImplementedError, self, []))"

definition LocalInstance_launch_command ::
  "host \<Rightarrow> engine \<Rightarrow> TAOInstance \<Rightarrow> string \<Rightarrow> string option \<Rightarrow> cli_args
     \<Rightarrow> (error + unit) \<times> TAOInstance \<times> event list" where
  "LocalInstance_launch_command fs eng self task_group task args =
     (if task_group \<in> set (map fst (task_map self)) then
        (case map_of (task_map self) task_group of
           None \<Rightarrow> (Inl KeyError, self, [])
         | Some tm \<Rightarrow>
             (case map_of tm (task_key task) of
                None \<Rightarrow> (Inr (), self, [])
              | Some t \<Rightarrow>
                  (fst (launch_in_container fs eng self t task args), self,
                   snd (launch_in_container fs eng self t task args))))
      else if task_group \<notin> set (instance_handler_tasks self) then (Inl AssertionError, self, [])
      else (case args of
              ArgList xs \<Rightarrow> (Inl AssertionError, self, [])
            | Namespace ns \<Rightarrow> instance_task fs eng self task_group ns))"

text \<open>\<^verbatim>\<open>WHLInstance.launch_command\<close>: the command runs on the host. Without arguments
  the method reads \<^verbatim>\<open>command\<close> before it is bound.\<close>

fun whl_command :: "string option \<Rightarrow> string list \<Rightarrow> error + string" where
  "whl_command task [] = Inl UnboundLocalError"
| "whl_command task (a # args) =
     Inr (if a = ''run'' then str_join '' '' args
          else task_str task @ '' '' @ str_join '' '' (a # args))"

definition whl_check_call :: "engine \<Rightarrow> string \<Rightarrow> unit eff" where
  "whl_check_call eng command =
     then_eff (Inr (), [Exec command]) (\<lambda>u.
       (case exec_result eng of
          Returned \<Rightarrow> (Inr (), [])
        | CalledProcessError output \<Rightarrow>
            (if output \<noteq> None then (Inl (SystemExit (- 1)), []) else (Inr (), []))
        | Raised e \<Rightarrow> (Inl e, [])))"

definition WHLInstance_launch_command ::
  "host \<Rightarrow> engine \<Rightarrow> TAOInstance \<Rightarrow> string \<Rightarrow> string option \<Rightarrow> cli_args
     \<Rightarrow> (error + unit) \<times> TAOInstance \<times> event list" where
  "WHLInstance_launch_command fs eng self task_group task args =
     (if task_group \<in> set (map fst (task_map self)) then
        (case map_of (task_map self) task_group of
           None \<Rightarrow> (Inl KeyError, self, [])
         | Some tm \<Rightarrow>
             (if task_key task \<in> set (map fst tm) then
                (case args of
                   Namespace ns \<Rightarrow> (Inl AssertionError, self, [])
                 | ArgList xs \<Rightarrow>
                     (fst (then_eff (no_effect (whl_command task xs)) (whl_check_call eng)), self,
                      snd (then_eff (no_effect (whl_command task xs)) (whl_check_call eng))))
              else (Inl NotImplementedError, self, [])))
      else (Inl NotImplementedError, self, []))"

text \<open>The method \<^verbatim>\<open>launch_command\<close> of whichever instance \<^verbatim>\<open>get_launcher\<close> returned.\<close>

fun launch_command ::
  "host \<Rightarrow> engine \<Rightarrow> launcher \<Rightarrow> string \<Rightarrow> string option \<Rightarrow> cli_args
     \<Rightarrow> (error + unit) \<times> launcher \<times> event list" where
  "launch_command fs eng (LocalInstance self) task_group task args =
     (case LocalInstance_launch_command fs eng self task_group task args of
        (r, self', calls) \<Rightarrow> (r, LocalInstance self', calls))"
| "launch_command fs eng (WHLInstance self) task_group task args =
     (case WHLInstance_launch_command fs eng self task_group task args of
        (r, self', calls) \<Rightarrow> (r, WHLInstance self', calls))"

section \<open>entrypoint/tao_launcher.py\<close>

text \<open>\<^verbatim>\<open>utils.get_config_file\<close> for the entry point \<^verbatim>\<open>tao\<close>: the user's
  configuration when it is there, the packaged one otherwise.\<close>

definition OVERRIDE_CONFIG :: "host \<Rightarrow> string" where
  "OVERRIDE_CONFIG fs = expanduser fs ''~/.tao/config.json''"

definition get_config_file :: "host \<Rightarrow> string" where
  "get_config_file fs =
     (if path_exists fs (OVERRIDE_CONFIG fs) \<and> is_file fs (OVERRIDE_CONFIG fs)
      then OVERRIDE_CONFIG fs else packaged_config fs)"

text \<open>The task group and the task that \<^verbatim>\<open>main\<close> reads off the command line, and the
  command line it hands to the parser.\<close>

definition main_args :: "string list \<Rightarrow> string list" where
  "main_args args = (if args = [] then [''--help''] else args)"

definition main_task :: "string list \<Rightarrow> string option" where
  "main_task args =
     (if length (main_args args) < 2 then None
      else if main_args args ! 1 \<noteq> ''--help'' then Some (main_args args ! 1) else None)"

definition parser_args :: "TAOInstance \<Rightarrow> string list \<Rightarrow> string list" where
  "parser_args self args =
     (if length (main_args args) < 2 \<and> hd (main_args args) \<notin> set (instance_handler_tasks self)
      then main_args args @ [''--help''] else main_args args)"

text \<open>\<^verbatim>\<open>main\<close>. Nothing catches an exception here: the process ends with it.\<close>

definition main :: "host \<Rightarrow> engine \<Rightarrow> string list \<Rightarrow> unit eff" where
  "main fs eng args =
     then_eff (no_effect (get_launcher fs (get_config_file fs))) (\<lambda>l.
       (case map_of (task_map (the_instance (fst l))) (hd (main_args args)) of
          Some tm \<Rightarrow>
            (if task_key (main_task args) \<in> set (map fst tm) then
               (case launch_command fs eng (fst l) (hd (main_args args)) (main_task args)
                       (ArgList (drop 2 (parser_args (the_instance (fst l)) args))) of
                  (r, l', calls) \<Rightarrow> (r, calls))
             else
               then_eff (no_effect (parse_known_args fs (parser_args (the_instance (fst l)) args)))
                 (\<lambda>parsed_args.
                   (case launch_command fs eng (fst l) (hd (main_args args)) (main_task args)
                           (Namespace parsed_args) of
                      (r, l', calls) \<Rightarrow> (r, calls))))
        | None \<Rightarrow>
            then_eff (no_effect (parse_known_args fs (parser_args (the_instance (fst l)) args)))
              (\<lambda>parsed_args.
                (case launch_command fs eng (fst l) (hd (main_args args)) (main_task args)
                        (Namespace parsed_args) of
                   (r, l', calls) \<Rightarrow> (r, calls)))))"

text \<open>The exit status of the process: 0 when \<^verbatim>\<open>main\<close> returns, the argument of
  \<^verbatim>\<open>sys.exit\<close> as a byte, and 1 for any other exception.\<close>

fun exit_status :: "error + unit \<Rightarrow> int" where
  "exit_status (Inr u) = 0"
| "exit_status (Inl (SystemExit n)) = n mod 256"
| "exit_status (Inl e) = 1"

section \<open>The calls of one run\<close>

text \<open>The calls of \<^verbatim>\<open>run_container\<close> from the start of the container on: none, or the
  start of the container that the engine returns, the command, and stops of that
  container, the last call being one.\<close>

definition stopped_run :: "engine \<Rightarrow> event list \<Rightarrow> bool" where
  "stopped_run eng calls \<longleftrightarrow>
     calls = [] \<or>
     (\<exists>img c cl stops. run_result eng = Inr c \<and>
        calls = Start img (c_id c) # Exec cl # stops @ [Stop (c_id c)] \<and>
        set stops \<subseteq> {Stop (c_id c)})"

section \<open>What a configuration lists\<close>

text \<open>
  The specification describes the three schema versions as nestings of docker image,
  tag and task list. A listing is one task name together with the task group, image, tag,
  registry and digest under which the configuration lists it. The definitions of this
  section follow that description, not the parser: \<open>config_listings\<close> is \<open>None\<close> for
  a configuration that is not of that shape, and the listings in file order otherwise.
  For version 1.0 the tag and the registry are fields of the image; for 2.0 and 3.0 the
  tag is the key of the entry that holds the task list and the registry a field of that
  entry. Versions 1.0 and 2.0 have the single group \<^verbatim>\<open>container_actions\<close>.
\<close>

record listing =
  l_group :: string
  l_task :: string
  l_image :: string
  l_tag :: pyval
  l_registry :: pyval
  l_digest :: pyval

fun dict_of :: "pyval \<Rightarrow> (string \<times> pyval) list option" where
  "dict_of (PDict kvs) = Some kvs"
| "dict_of _ = None"

fun is_str :: "pyval \<Rightarrow> bool" where
  "is_str (PStr s) = True"
| "is_str _ = False"

fun str_of :: "pyval \<Rightarrow> string" where
  "str_of (PStr s) = s"
| "str_of _ = []"

text \<open>A task list: a list of strings.\<close>

fun names_of :: "pyval \<Rightarrow> string list option" where
  "names_of (PList ts) = (if list_all is_str ts then Some (map str_of ts) else None)"
| "names_of _ = None"

definition opt_digest :: "(string \<times> pyval) list \<Rightarrow> pyval" where
  "opt_digest kvs = (case map_of kvs ''docker_digest'' of None \<Rightarrow> PNone | Some v \<Rightarrow> v)"

text \<open>The listings of all entries, in order, when every entry is well formed.\<close>

fun gather :: "('a \<Rightarrow> 'b list option) \<Rightarrow> 'a list \<Rightarrow> 'b list option" where
  "gather f [] = Some []"
| "gather f (x # xs) =
     Option.bind (f x) (\<lambda>ys. Option.bind (gather f xs) (\<lambda>zs. Some (ys @ zs)))"

definition v1_image_listings :: "string \<times> pyval \<Rightarrow> listing list option" where
  "v1_image_listings item =
     Option.bind (dict_of (snd item)) (\<lambda>dd.
     Option.bind (map_of dd ''tasks'') (\<lambda>tv.
     Option.bind (names_of tv) (\<lambda>names.
     Option.bind (map_of dd ''docker_tag'') (\<lambda>tag.
     Option.bind (map_of dd ''docker_registry'') (\<lambda>registry.
       Some (map (\<lambda>n. \<lparr> l_group = ''container_actions'', l_task = n, l_image = fst item,
                          l_tag = tag, l_registry = registry, l_digest = opt_digest dd \<rparr>)
                 names))))))"

definition tag_listings :: "string \<Rightarrow> string \<Rightarrow> string \<times> pyval \<Rightarrow> listing list option" where
  "tag_listings grp img item =
     Option.bind (dict_of (snd item)) (\<lambda>td.
     Option.bind (map_of td ''tasks'') (\<lambda>tv.
     Option.bind (names_of tv) (\<lambda>names.
     Option.bind (map_of td ''docker_registry'') (\<lambda>registry.
       Some (map (\<lambda>n. \<lparr> l_group = grp, l_task = n, l_image = img,
                          l_tag = PStr (fst item), l_registry = registry,
                          l_digest = opt_digest td \<rparr>)
                 names)))))"

definition image_listings :: "string \<Rightarrow> string \<times> pyval \<Rightarrow> listing list option" where
  "image_listings grp item =
     Option.bind (dict_of (snd item)) (\<lambda>tags.
       if distinct (map fst tags) then gather (tag_listings grp (fst item)) tags else None)"

definition group_listings :: "string \<times> pyval \<Rightarrow> listing list option" where
  "group_listings item =
     Option.bind (dict_of (snd item)) (\<lambda>gd.
     Option.bind (map_of gd ''dockers'') (\<lambda>dv.
     Option.bind (dict_of dv) (\<lambda>images.
       gather (image_listings (fst item)) images)))"

definition config_listings :: "pyval \<Rightarrow> listing list option" where
  "config_listings config_data =
     Option.bind (dict_of config_data) (\<lambda>kvs.
     Option.bind (map_of kvs ''format_version'') (\<lambda>version.
       if eq_float version 1 then
         Option.bind (map_of kvs ''dockers'') (\<lambda>dv.
         Option.bind (dict_of dv) (\<lambda>dockers.
           if distinct (map fst dockers) then gather v1_image_listings dockers else None))
       else if eq_float version 2 then
         Option.bind (map_of kvs ''dockers'') (\<lambda>dv.
         Option.bind (dict_of dv) (\<lambda>dockers.
           if distinct (map fst dockers)
           then gather (image_listings ''container_actions'') dockers else None))
       else if eq_float version 3 then
         Option.bind (map_of kvs ''task_group'') (\<lambda>gv.
         Option.bind (dict_of gv) (\<lambda>groups.
           if distinct (map fst groups) then gather group_listings groups else None))
       else None))"

text \<open>The listing that counts for a task name of a group: the last one in file order.
  A name that is listed once has that listing.\<close>

definition last_listing :: "listing list \<Rightarrow> string \<Rightarrow> string \<Rightarrow> listing option" where
  "last_listing L grp nm = find (\<lambda>l. l_group l = grp \<and> l_task l = nm) (rev L)"

text \<open>The Task that the constructor builds from a listing, and the dict that a list of
  listings fills when they are stored in order.\<close>

definition task_of_listing :: "string option \<Rightarrow> listing \<Rightarrow> Task" where
  "task_of_listing ov l =
     Task_init ov (PStr (l_task l)) (PStr (l_image l)) (l_tag l) (l_registry l) (l_digest l)"

definition listed :: "string option \<Rightarrow> listing list \<Rightarrow> (pykey \<rightharpoonup> Task)" where
  "listed ov ls = map_of (rev (map (\<lambda>l. (KStr (l_task l), task_of_listing ov l)) ls))"

section \<open>Example inputs\<close>

text \<open>A host with the given JSON files and environment variables, on which every path
  is its own real path and \<^verbatim>\<open>str\<close> is only ever applied to strings.\<close>

definition example_host :: "(string \<times> pyval) list \<Rightarrow> (string \<times> string) list \<Rightarrow> host" where
  "example_host files env =
     \<lparr> py_str = str_of,
       environ = map_of env,
       path_exists = (\<lambda>p. p \<in> set (map fst files)),
       is_file = (\<lambda>p. p \<in> set (map fst files)),
       realpath = (\<lambda>p. p),
       expanduser = (\<lambda>p. p),
       read_json = (\<lambda>p. case map_of files p of None \<Rightarrow> Inl OSError | Some v \<Rightarrow> Inr v),
       packaged_config = ''/opt/tao/config/config.json'',
       parse_known_args = (\<lambda>args. Inr []) \<rparr>"

text \<open>An engine with no local image and no running container, on which every call
  succeeds.\<close>

definition example_container :: container where
  "example_container =
     \<lparr> c_id = ''4f1c9a7d02b3'', short_id = ''4f1c9a7d02'', status = ''running'',
       config_image = ''nvcr.io/nvidia/tao/tao-toolkit:5.0.0-tf2.11.0'', processes = [] \<rparr>"

definition example_engine :: "string list list \<Rightarrow> exec_outcome \<Rightarrow> engine" where
  "example_engine tags outcome =
     \<lparr> repo_tags = tags,
       pull_error = None,
       run_result = Inr example_container,
       exec_result = outcome,
       stop_error = None,
       running = [],
       get_container = (\<lambda>idx. Inl APIError) \<rparr>"

definition example_handler :: DockerHandler where
  "example_handler =
     DockerHandler_init (example_host [] []) (PStr ''nvcr.io'') (PStr ''nvidia/tao/tao-toolkit'')
       (PStr ''5.0.0-tf2.11.0'') PNone ''/home/user/.tao_mounts.json''"

text \<open>Configurations of the three schema versions.\<close>

definition example_v1 :: pyval where
  "example_v1 =
     PDict [(''format_version'', PFloat 1),
            (''dockers'', PDict
               [(''nvidia/tao/tao-toolkit'', PDict
                   [(''docker_registry'', PStr ''nvcr.io''),
                    (''docker_tag'', PStr ''v3.21.08-py3''),
                    (''tasks'', PList [PStr ''detectnet_v2'', PStr ''unet''])])])]"

definition example_v2 :: pyval where
  "example_v2 =
     PDict [(''format_version'', PFloat 2),
            (''dockers'', PDict
               [(''nvidia/tao/tao-toolkit'', PDict
                   [(''4.0.0-tf1.15.5'', PDict
                       [(''docker_registry'', PStr ''nvcr.io''),
                        (''tasks'', PList [PStr ''detectnet_v2'', PStr ''unet''])]),
                    (''4.0.0-pyt'', PDict
                       [(''docker_registry'', PStr ''nvcr.io''),
                        (''tasks'', PList [PStr ''action_recognition''])])])])]"

definition example_v3 :: pyval where
  "example_v3 =
     PDict [(''format_version'', PFloat 3),
            (''task_group'', PDict
               [(''model'', PDict
                   [(''dockers'', PDict
                       [(''nvidia/tao/tao-toolkit'', PDict
                           [(''5.0.0-tf2.11.0'', PDict
                               [(''docker_registry'', PStr ''nvcr.io''),
                                (''tasks'', PList [PStr ''classification_tf2'', PStr ''efficientdet_tf2''])]),
                            (''5.0.0-pyt'', PDict
                               [(''docker_registry'', PStr ''nvcr.io''),
                                (''tasks'', PList [PStr ''action_recognition''])])])])]),
                (''dataset'', PDict
                   [(''dockers'', PDict
                       [(''nvidia/tao/tao-toolkit'', PDict
                           [(''5.0.0-data-services'', PDict
                               [(''docker_registry'', PStr ''nvcr.io''),
                                (''tasks'', PList [PStr ''augmentation''])])])])])])]"

text \<open>The packaged configuration file, hosts that hold a configuration there, the task
  map that \<open>example_v1\<close> lists, and the instances built from it.\<close>

definition example_config_path :: string where
  "example_config_path = ''/opt/tao/config/config.json''"

definition example_task :: "string \<Rightarrow> string \<Rightarrow> Task" where
  "example_task registry nm =
     \<lparr> name = PStr nm, docker_image = PStr ''nvidia/tao/tao-toolkit'',
       docker_tag = PStr ''v3.21.08-py3'', docker_registry = PStr registry,
       docker_digest = PNone \<rparr>"

definition example_task_map :: "string \<Rightarrow> task_map" where
  "example_task_map registry =
     [(''container_actions'',
       [(KStr ''detectnet_v2'', example_task registry ''detectnet_v2''),
        (KStr ''unet'', example_task registry ''unet'')])]"

definition example_listing :: "string \<Rightarrow> listing" where
  "example_listing nm =
     \<lparr> l_group = ''container_actions'', l_task = nm, l_image = ''nvidia/tao/tao-toolkit'',
       l_tag = PStr ''v3.21.08-py3'', l_registry = PStr ''nvcr.io'', l_digest = PNone \<rparr>"

definition example_local :: TAOInstance where
  "example_local =
     TAOInstance_init (example_task_map ''nvcr.io'') (Some {''nvidia/tao/tao-toolkit''})
       example_config_path"

definition example_whl :: TAOInstance where
  "example_whl = TAOInstance_init (example_task_map ''nvcr.io'') None example_config_path"

text \<open>A configuration of a version that does not exist.\<close>

definition example_v4 :: "(string \<times> pyval) list" where
  "example_v4 = [(''format_version'', PFloat 4), (''dockers'', PDict [])]"

text \<open>Mount descriptors, and a mounts file whose only mount has a source that is not on
  the example host.\<close>

definition example_mount :: "string \<Rightarrow> string \<Rightarrow> pyval" where
  "example_mount src dst = PDict [(''source'', PStr src), (''destination'', PStr dst)]"

definition example_mounts_file :: "(string \<times> pyval) list" where
  "example_mounts_file = [(''Mounts'', PList [example_mount ''/data'' ''/workspace/data''])]"

section \<open>Basic facts\<close>

lemma and_then_Inr [simp]: "and_then (Inr x) f = f x"
  by (simp add: and_then_def)

lemma and_then_Inl [simp]: "and_then (Inl e) f = Inl e"
  by (simp add: and_then_def)

lemma and_then_eq_Inr: "and_then r f = Inr y \<longleftrightarrow> (\<exists>x. r = Inr x \<and> f x = Inr y)"
  by (cases r) simp_all

lemma py_items_Inr: "py_items v = Inr kvs \<Longrightarrow> v = PDict kvs"
  by (cases v) simp_all

lemma py_keys_Inr: "py_keys v = Inr ks \<Longrightarrow> \<exists>kvs. v = PDict kvs \<and> ks = map fst kvs"
  by (cases v) auto

lemma py_getitem_Inr: "py_getitem v k = Inr x \<Longrightarrow> \<exists>kvs. v = PDict kvs \<and> map_of kvs k = Some x"
  by (cases v) (auto split: option.splits)

lemma map_of_Some_key: "map_of kvs k = Some v \<Longrightarrow> k \<in> fst ` set kvs"
  by (metis domI dom_map_of_conv_image_fst)

lemma for_each_Cons_Inr:
  "for_each body (x # xs) s = Inr s' \<Longrightarrow> \<exists>s1. body x s = Inr s1 \<and> for_each body xs s1 = Inr s'"
  by (simp add: and_then_eq_Inr)

lemma for_each_map: "for_each body (map g xs) s = for_each (\<lambda>x. body (g x)) xs s"
proof (induction xs arbitrary: s)
  case Nil
  then show ?case by simp
next
  case (Cons x xs)
  then show ?case by (cases "body (g x) s") simp_all
qed

lemma eq_float_excl: "eq_float v 3 \<Longrightarrow> \<not> eq_float v 1 \<and> \<not> eq_float v 2"
  by (cases v) (auto split: if_splits)

lemma eq_float_2_not_1: "eq_float v 2 \<Longrightarrow> \<not> eq_float v 1"
  by (cases v) (auto split: if_splits)

lemma parse_v3:
  assumes "map_of cfg ''format_version'' = Some v" and "eq_float v 3"
  shows "parse_launcher_config ov (PDict cfg) =
     and_then (py_getitem (PDict cfg) ''task_group'') (\<lambda>groups.
     and_then (py_items groups) (\<lambda>items.
        for_each (v3_group ov) items ([], {})))"
  using assms eq_float_excl [OF assms(2)] map_of_Some_key [OF assms(1)]
  by (simp add: parse_launcher_config_def)

section \<open>The keys of the task map\<close>

lemma v3_group_keys:
  assumes "v3_group ov item st = Inr st'"
  shows "fst ` set (fst st') = insert (fst item) (fst ` set (fst st))"
proof -
  from assms obtain r where "fst st' = AList.update (fst item) r (fst st)"
    by (auto simp: v3_group_def and_then_eq_Inr)
  then show ?thesis by (simp add: dom_update)
qed

lemma for_each_v3_group_keys:
  "for_each (v3_group ov) items st = Inr st' \<Longrightarrow>
     fst ` set (fst st') = fst ` set items \<union> fst ` set (fst st)"
proof (induction items arbitrary: st)
  case Nil
  then show ?case by simp
next
  case (Cons item items)
  from for_each_Cons_Inr [OF Cons.prems] obtain s1 where b: "v3_group ov item st = Inr s1"
    and r: "for_each (v3_group ov) items s1 = Inr st'"
    by blast
  show ?case using Cons.IH [OF r] v3_group_keys [OF b] by auto
qed

section \<open>Dicts as maps\<close>

lemma listed_Nil: "listed ov [] = Map.empty"
  by (simp add: listed_def)

lemma listed_append: "listed ov (ys @ zs) = listed ov ys ++ listed ov zs"
  by (simp add: listed_def)

lemma listed_Cons:
  "m ++ listed ov (l # ls) = (m(KStr (l_task l) \<mapsto> task_of_listing ov l)) ++ listed ov ls"
  by (simp add: listed_def)

lemma map_of_rev_distinct: "distinct (map fst xs) \<Longrightarrow> map_of (rev xs) = map_of xs"
proof (induction xs)
  case Nil
  then show ?case by simp
next
  case (Cons x xs)
  then have notin: "fst x \<notin> dom (map_of xs)"
    by (simp add: dom_map_of_conv_image_fst)
  have "map_of (rev (x # xs)) = [fst x \<mapsto> snd x] ++ map_of xs"
    using Cons by simp
  also have "\<dots> = (map_of xs)(fst x \<mapsto> snd x)"
    using notin by (auto simp: fun_eq_iff map_add_def split: option.splits)
  finally show ?case by (cases x) simp
qed

lemma map_add_single: "m ++ ([k \<mapsto> v] ++ n) = m(k \<mapsto> v) ++ n"
  by (simp add: fun_eq_iff map_add_def split: option.splits)

lemma map_of_fold_update:
  "map_of (fold (\<lambda>kv. AList.update (fst kv) (snd kv)) new d) = map_of d ++ map_of (rev new)"
proof (induction new arbitrary: d)
  case Nil
  then show ?case by simp
next
  case (Cons kv new)
  have "map_of (fold (\<lambda>kv. AList.update (fst kv) (snd kv)) (kv # new) d)
      = map_of (fold (\<lambda>kv. AList.update (fst kv) (snd kv)) new (AList.update (fst kv) (snd kv) d))"
    by simp
  also have "\<dots> = map_of (AList.update (fst kv) (snd kv) d) ++ map_of (rev new)"
    by (rule Cons.IH)
  also have "\<dots> = (map_of d)(fst kv \<mapsto> snd kv) ++ map_of (rev new)"
    by (simp only: update_conv')
  also have "\<dots> = map_of d ++ ([fst kv \<mapsto> snd kv] ++ map_of (rev new))"
    by (simp only: map_add_single)
  also have "\<dots> = map_of d ++ map_of (rev (kv # new))"
    by (cases kv) simp
  finally show ?case .
qed

lemma map_of_dict_update: "map_of (dict_update d new) = map_of d ++ map_of (rev new)"
  by (simp only: dict_update_def map_of_fold_update)

lemma distinct_dict_update: "distinct (map fst d) \<Longrightarrow> distinct (map fst (dict_update d new))"
  unfolding dict_update_def
  by (induction new arbitrary: d) (simp_all add: distinct_update)

section \<open>Gathering listings\<close>

lemma gather_Cons_Some:
  "gather f (x # xs) = Some L \<Longrightarrow> \<exists>ys zs. f x = Some ys \<and> gather f xs = Some zs \<and> L = ys @ zs"
  by (auto simp: bind_eq_Some_conv)

lemma for_each_gather:
  assumes "gather f xs = Some L"
    and "\<And>x ys s. x \<in> set xs \<Longrightarrow> f x = Some ys \<Longrightarrow> I s \<Longrightarrow>
            \<exists>s'. body x s = Inr s' \<and> I s' \<and> R s' = R s ++ listed ov ys"
    and "I s"
  shows "\<exists>s'. for_each body xs s = Inr s' \<and> I s' \<and> R s' = R s ++ listed ov L"
  using assms
proof (induction xs arbitrary: s L)
  case Nil
  then show ?case by (simp add: listed_Nil)
next
  case (Cons x xs)
  from gather_Cons_Some [OF Cons.prems(1)] obtain ys zs where fx: "f x = Some ys"
    and g: "gather f xs = Some zs" and L: "L = ys @ zs"
    by blast
  from Cons.prems(2) [of x ys s] fx Cons.prems(3)
  obtain s1 where b: "body x s = Inr s1" and i1: "I s1" and r1: "R s1 = R s ++ listed ov ys"
    by auto
  have "\<exists>s'. for_each body xs s1 = Inr s' \<and> I s' \<and> R s' = R s1 ++ listed ov zs"
  proof (rule Cons.IH [OF g _ i1])
    fix y ws t assume "y \<in> set xs" "f y = Some ws" "I t"
    then show "\<exists>s'. body y t = Inr s' \<and> I s' \<and> R s' = R t ++ listed ov ws"
      using Cons.prems(2) [of y ws t] by simp
  qed
  then obtain s' where "for_each body xs s1 = Inr s'" "I s'" "R s' = R s1 ++ listed ov zs"
    by blast
  then show ?case using b r1 L by (simp add: listed_append)
qed

lemma gather_set:
  "gather f xs = Some L \<Longrightarrow> l \<in> set L \<Longrightarrow> \<exists>x ys. x \<in> set xs \<and> f x = Some ys \<and> l \<in> set ys"
proof (induction xs arbitrary: L)
  case Nil
  then show ?case by simp
next
  case (Cons x xs)
  from gather_Cons_Some [OF Cons.prems(1)] obtain ys zs where fx: "f x = Some ys"
    and g: "gather f xs = Some zs" and L: "L = ys @ zs"
    by blast
  show ?case
  proof (cases "l \<in> set ys")
    case True
    with fx show ?thesis by auto
  next
    case False
    with Cons.prems(2) L have "l \<in> set zs" by simp
    from Cons.IH [OF g this] show ?thesis by auto
  qed
qed

lemma gather_all:
  assumes "gather f xs = Some L" and "\<And>x ys l. x \<in> set xs \<Longrightarrow> f x = Some ys \<Longrightarrow> l \<in> set ys \<Longrightarrow> P l"
    and "l \<in> set L"
  shows "P l"
  using gather_set [OF assms(1,3)] assms(2) by blast

lemma gather_filter:
  assumes "gather f xs = Some L" and "distinct (map fst xs)"
    and "\<And>x ys l. x \<in> set xs \<Longrightarrow> f x = Some ys \<Longrightarrow> l \<in> set ys \<Longrightarrow> key l = fst x"
    and "x \<in> set xs" and "f x = Some ys"
  shows "filter (\<lambda>l. key l = fst x) L = ys"
  using assms
proof (induction xs arbitrary: L)
  case Nil
  then show ?case by simp
next
  case (Cons y xs)
  from gather_Cons_Some [OF Cons.prems(1)] obtain ys' zs where fy: "f y = Some ys'"
    and g: "gather f xs = Some zs" and L: "L = ys' @ zs"
    by blast
  have keys_y: "\<forall>l\<in>set ys'. key l = fst y" using Cons.prems(3) [of y ys'] fy by simp
  have keys_zs: "\<forall>l\<in>set zs. key l \<in> fst ` set xs"
  proof
    fix l assume "l \<in> set zs"
    from gather_set [OF g this] obtain x' ys'' where "x' \<in> set xs" "f x' = Some ys''" "l \<in> set ys''"
      by blast
    then show "key l \<in> fst ` set xs" using Cons.prems(3) [of x' ys'' l] by auto
  qed
  from Cons.prems(2) have ynot: "fst y \<notin> fst ` set xs" and dxs: "distinct (map fst xs)" by simp_all
  show ?case
  proof (cases "x = y")
    case True
    then have "ys' = ys" using fy Cons.prems(5) by simp
    moreover have "filter (\<lambda>l. key l = fst y) ys' = ys'" using keys_y by (simp add: filter_id_conv)
    moreover have "\<forall>l\<in>set zs. key l \<noteq> fst y"
    proof
      fix l assume "l \<in> set zs"
      with keys_zs have "key l \<in> fst ` set xs" by blast
      with ynot show "key l \<noteq> fst y" by metis
    qed
    then have "filter (\<lambda>l. key l = fst y) zs = []" by (simp add: filter_empty_conv)
    ultimately show ?thesis using L True by simp
  next
    case False
    then have xin: "x \<in> set xs" using Cons.prems(4) by simp
    then have "fst x \<noteq> fst y" using ynot by (metis imageI)
    then have "filter (\<lambda>l. key l = fst x) ys' = []" using keys_y by (auto simp: filter_empty_conv)
    moreover have "filter (\<lambda>l. key l = fst x) zs = ys"
    proof (rule Cons.IH [OF g dxs _ xin Cons.prems(5)])
      fix x' ys'' l assume "x' \<in> set xs" "f x' = Some ys''" "l \<in> set ys''"
      then show "key l = fst x'" using Cons.prems(3) [of x' ys'' l] by simp
    qed
    ultimately show ?thesis using L by simp
  qed
qed

section \<open>The listings\<close>

lemma dict_of_Some: "dict_of v = Some kvs \<Longrightarrow> v = PDict kvs"
  by (cases v) simp_all

lemma names_of_Some:
  "names_of tv = Some names \<Longrightarrow> \<exists>ts. tv = PList ts \<and> list_all is_str ts \<and> names = map str_of ts"
  by (cases tv) (auto split: if_splits)

lemma py_hash_str: "is_str t \<Longrightarrow> py_hash t = Inr (KStr (str_of t)) \<and> t = PStr (str_of t)"
  by (cases t) simp_all

lemma digest_if_present_dict: "digest_if_present (PDict td) = Inr (opt_digest td)"
proof (cases "map_of td ''docker_digest''")
  case None
  then have "''docker_digest'' \<notin> fst ` set td" by (simp add: map_of_eq_None_iff)
  with None show ?thesis by (simp add: digest_if_present_def opt_digest_def)
next
  case (Some v)
  then have "''docker_digest'' \<in> fst ` set td" by (rule map_of_Some_key)
  with Some show ?thesis by (simp add: digest_if_present_def opt_digest_def)
qed

lemma digest_get_dict: "digest_get (PDict td) = Inr (opt_digest td)"
  by (simp add: digest_get_def opt_digest_def)

lemma tag_listings_group: "tag_listings grp img item = Some ys \<Longrightarrow> l \<in> set ys \<Longrightarrow> l_group l = grp"
  by (auto simp: tag_listings_def bind_eq_Some_conv)

lemma image_listings_group:
  assumes "image_listings grp item = Some ys" and "l \<in> set ys"
  shows "l_group l = grp"
proof -
  from assms(1) obtain tags where g: "gather (tag_listings grp (fst item)) tags = Some ys"
    by (auto simp: image_listings_def bind_eq_Some_conv split: if_splits)
  show ?thesis
    by (rule gather_all [OF g _ assms(2)]) (rule tag_listings_group)
qed

lemma group_listings_group:
  assumes "group_listings item = Some ys" and "l \<in> set ys"
  shows "l_group l = fst item"
proof -
  from assms(1) obtain images where g: "gather (image_listings (fst item)) images = Some ys"
    by (auto simp: group_listings_def bind_eq_Some_conv)
  show ?thesis
    by (rule gather_all [OF g _ assms(2)]) (rule image_listings_group)
qed

lemma v1_image_listings_group:
  "v1_image_listings item = Some ys \<Longrightarrow> l \<in> set ys \<Longrightarrow> l_group l = ''container_actions''"
  by (auto simp: v1_image_listings_def bind_eq_Some_conv)

lemma find_filter: "find Q (filter P xs) = find (\<lambda>x. P x \<and> Q x) xs"
  by (induction xs) simp_all

lemma listed_lookup:
  "listed ov ls (KStr nm) = map_option (task_of_listing ov) (find (\<lambda>l. l_task l = nm) (rev ls))"
proof -
  have "map_of (map (\<lambda>l. (KStr (l_task l), task_of_listing ov l)) xs) (KStr nm)
      = map_option (task_of_listing ov) (find (\<lambda>l. l_task l = nm) xs)" for xs
    by (induction xs) simp_all
  then show ?thesis by (simp add: listed_def rev_map)
qed

lemma listed_group_lookup:
  "listed ov (filter (\<lambda>l. l_group l = grp) L) (KStr nm)
     = map_option (task_of_listing ov) (last_listing L grp nm)"
  by (simp add: listed_lookup last_listing_def rev_filter find_filter)

lemma find_SomeD: "find P xs = Some x \<Longrightarrow> x \<in> set xs \<and> P x"
  by (induction xs) (auto split: if_splits)

lemma last_listing_Some:
  "last_listing L grp nm = Some l \<Longrightarrow> l \<in> set L \<and> l_group l = grp \<and> l_task l = nm"
  unfolding last_listing_def by (drule find_SomeD) simp

section \<open>The parser stores what the configuration lists\<close>

lemma tag_task_loop:
  assumes "map_of tags tag = Some (PDict td)"
    and "map_of td ''docker_registry'' = Some reg" and "dg (PDict td) = Inr digest"
    and "list_all is_str ts" and "distinct (map fst (d :: task_dict))"
  shows "\<exists>d'. for_each (tag_task dg ov img (PDict tags) tag) ts d = Inr d' \<and> distinct (map fst d') \<and>
            map_of d' = map_of d ++ listed ov (map (\<lambda>n. \<lparr> l_group = grp, l_task = n, l_image = img,
                l_tag = PStr tag, l_registry = reg, l_digest = digest \<rparr>) (map str_of ts))"
  using assms(4,5)
proof (induction ts arbitrary: d)
  case Nil
  then show ?case by (simp add: listed_Nil)
next
  case (Cons t ts)
  let ?l = "\<lparr> l_group = grp, l_task = str_of t, l_image = img,
                l_tag = PStr tag, l_registry = reg, l_digest = digest \<rparr>"
  let ?d1 = "AList.update (KStr (str_of t)) (task_of_listing ov ?l) d"
  from Cons.prems have t: "is_str t" and ts: "list_all is_str ts" by simp_all
  have step: "tag_task dg ov img (PDict tags) tag t d = Inr ?d1"
    using assms(1,2,3) py_hash_str [OF t] by (simp add: tag_task_def task_of_listing_def)
  have d1: "distinct (map fst ?d1)" using Cons.prems(2) by (simp add: distinct_update)
  from Cons.IH [OF ts d1] obtain d' where
    r: "for_each (tag_task dg ov img (PDict tags) tag) ts ?d1 = Inr d'" and dd: "distinct (map fst d')"
    and m: "map_of d' = map_of ?d1 ++ listed ov (map (\<lambda>n. \<lparr> l_group = grp, l_task = n, l_image = img,
                l_tag = PStr tag, l_registry = reg, l_digest = digest \<rparr>) (map str_of ts))"
    by blast
  have "map_of ?d1 = (map_of d)(KStr (str_of t) \<mapsto> task_of_listing ov ?l)"
    by (simp only: update_conv')
  with m have "map_of d' = map_of d ++ listed ov (?l # map (\<lambda>n. \<lparr> l_group = grp, l_task = n, l_image = img,
                l_tag = PStr tag, l_registry = reg, l_digest = digest \<rparr>) (map str_of ts))"
    by (simp only: listed_Cons listing.simps)
  with step r dd show ?case by simp
qed

lemma tag_tasks_step:
  assumes "distinct (map fst tags)" and "item \<in> set tags"
    and "tag_listings grp img item = Some ys"
    and "\<And>td. dg (PDict td) = Inr (opt_digest td)"
    and "distinct (map fst (d :: task_dict))"
  shows "\<exists>d'. tag_tasks dg ov img (PDict tags) (fst item) d = Inr d' \<and> distinct (map fst d') \<and>
            map_of d' = map_of d ++ listed ov ys"
proof -
  from assms(3) obtain td tv names reg where td: "dict_of (snd item) = Some td"
    and tv: "map_of td ''tasks'' = Some tv" and names: "names_of tv = Some names"
    and reg: "map_of td ''docker_registry'' = Some reg"
    and ys: "ys = map (\<lambda>n. \<lparr> l_group = grp, l_task = n, l_image = img,
                l_tag = PStr (fst item), l_registry = reg, l_digest = opt_digest td \<rparr>) names"
    by (auto simp: tag_listings_def bind_eq_Some_conv)
  from names_of_Some [OF names] obtain ts where ts: "tv = PList ts" "list_all is_str ts"
    "names = map str_of ts" by blast
  have sn: "snd item = PDict td" using td by (rule dict_of_Some)
  have look: "map_of tags (fst item) = Some (PDict td)"
    using assms(1,2) sn by (cases item) simp
  from tag_task_loop [where dg = dg and ov = ov and img = img and grp = grp,
      OF look reg assms(4) [of td] ts(2) assms(5)]
  obtain d' where "for_each (tag_task dg ov img (PDict tags) (fst item)) ts d = Inr d'"
    "distinct (map fst d')"
    "map_of d' = map_of d ++ listed ov ys"
    unfolding ys ts(3) by blast
  then show ?thesis using look tv ts(1) by (simp add: tag_tasks_def)
qed

lemma tag_comprehension_listings:
  assumes "image_listings grp item = Some ys"
    and "\<And>td. dg (PDict td) = Inr (opt_digest td)"
  shows "is_dict (snd item) \<and> (\<exists>new. tag_comprehension dg ov (fst item) (snd item) = Inr new \<and>
            distinct (map fst new) \<and> map_of new = listed ov ys)"
proof -
  from assms(1) obtain tags where tags: "dict_of (snd item) = Some tags"
    and dist: "distinct (map fst tags)" and g: "gather (tag_listings grp (fst item)) tags = Some ys"
    by (auto simp: image_listings_def bind_eq_Some_conv split: if_splits)
  have idata: "snd item = PDict tags" using tags by (rule dict_of_Some)
  have "\<exists>new. for_each (\<lambda>tg. tag_tasks dg ov (fst item) (PDict tags) (fst tg)) tags [] = Inr new \<and>
           distinct (map fst new) \<and> map_of new = map_of [] ++ listed ov ys"
  proof (rule for_each_gather [OF g, where I = "\<lambda>d. distinct (map fst d)" and R = map_of])
    fix tg zs and d :: task_dict
    assume "tg \<in> set tags" "tag_listings grp (fst item) tg = Some zs" "distinct (map fst d)"
    then show "\<exists>d'. tag_tasks dg ov (fst item) (PDict tags) (fst tg) d = Inr d' \<and> distinct (map fst d') \<and>
            map_of d' = map_of d ++ listed ov zs"
      using tag_tasks_step [OF dist _ _ assms(2)] by blast
  qed simp
  then show ?thesis using idata by (simp add: tag_comprehension_def for_each_map)
qed

lemma image_step:
  assumes new: "distinct (map fst new)" "map_of new = listed ov ys"
    and d: "distinct (map fst (fst st))"
  shows "distinct (map fst (fst (dict_update (fst st) new, insert img (snd st)))) \<and>
         map_of (fst (dict_update (fst st) new, insert img (snd st))) = map_of (fst st) ++ listed ov ys"
  using assms by (simp add: distinct_dict_update map_of_dict_update map_of_rev_distinct)

lemma v3_image_step:
  assumes "image_listings grp item = Some ys" and "distinct (map fst (fst st))"
  shows "\<exists>st'. v3_image ov item st = Inr st' \<and> distinct (map fst (fst st')) \<and>
            map_of (fst st') = map_of (fst st) ++ listed ov ys"
proof -
  from tag_comprehension_listings [where dg = digest_get and ov = ov, OF assms(1) digest_get_dict]
  obtain new where "is_dict (snd item)"
    "tag_comprehension digest_get ov (fst item) (snd item) = Inr new"
    "distinct (map fst new)" "map_of new = listed ov ys"
    by blast
  then show ?thesis using image_step [OF _ _ assms(2), of new ov ys "fst item"]
    by (simp add: v3_image_def)
qed

lemma v2_image_step:
  assumes "distinct (map fst dockers)" and "item \<in> set dockers"
    and "image_listings grp item = Some ys" and "distinct (map fst (fst st))"
  shows "\<exists>st'. v2_image ov (PDict dockers) (fst item) st = Inr st' \<and> distinct (map fst (fst st')) \<and>
            map_of (fst st') = map_of (fst st) ++ listed ov ys"
proof -
  have look: "map_of dockers (fst item) = Some (snd item)"
    using assms(1,2) by (cases item) simp
  from tag_comprehension_listings [where dg = digest_if_present and ov = ov,
      OF assms(3) digest_if_present_dict]
  obtain new where "is_dict (snd item)"
    "tag_comprehension digest_if_present ov (fst item) (snd item) = Inr new"
    "distinct (map fst new)" "map_of new = listed ov ys"
    by blast
  then show ?thesis using look image_step [OF _ _ assms(4), of new ov ys "fst item"]
    by (simp add: v2_image_def)
qed

lemma v1_task_loop:
  assumes "map_of dd ''docker_tag'' = Some tag" and "map_of dd ''docker_registry'' = Some reg"
    and "list_all is_str ts" and "distinct (map fst (d :: task_dict))"
  shows "\<exists>d'. for_each (v1_task ov img (PDict dd)) ts d = Inr d' \<and> distinct (map fst d') \<and>
            map_of d' = map_of d ++ listed ov (map (\<lambda>n. \<lparr> l_group = grp, l_task = n, l_image = img,
                l_tag = tag, l_registry = reg, l_digest = opt_digest dd \<rparr>) (map str_of ts))"
  using assms(3,4)
proof (induction ts arbitrary: d)
  case Nil
  then show ?case by (simp add: listed_Nil)
next
  case (Cons t ts)
  let ?l = "\<lparr> l_group = grp, l_task = str_of t, l_image = img,
                l_tag = tag, l_registry = reg, l_digest = opt_digest dd \<rparr>"
  let ?d1 = "AList.update (KStr (str_of t)) (task_of_listing ov ?l) d"
  from Cons.prems have t: "is_str t" and ts: "list_all is_str ts" by simp_all
  have step: "v1_task ov img (PDict dd) t d = Inr ?d1"
    using assms(1,2) py_hash_str [OF t] digest_if_present_dict [of dd]
    by (simp add: v1_task_def task_of_listing_def)
  have d1: "distinct (map fst ?d1)" using Cons.prems(2) by (simp add: distinct_update)
  from Cons.IH [OF ts d1] obtain d' where
    r: "for_each (v1_task ov img (PDict dd)) ts ?d1 = Inr d'" and dd: "distinct (map fst d')"
    and m: "map_of d' = map_of ?d1 ++ listed ov (map (\<lambda>n. \<lparr> l_group = grp, l_task = n, l_image = img,
                l_tag = tag, l_registry = reg, l_digest = opt_digest dd \<rparr>) (map str_of ts))"
    by blast
  have "map_of ?d1 = (map_of d)(KStr (str_of t) \<mapsto> task_of_listing ov ?l)"
    by (simp only: update_conv')
  with m have "map_of d' = map_of d ++ listed ov (?l # map (\<lambda>n. \<lparr> l_group = grp, l_task = n, l_image = img,
                l_tag = tag, l_registry = reg, l_digest = opt_digest dd \<rparr>) (map str_of ts))"
    by (simp only: listed_Cons listing.simps)
  with step r dd show ?case by simp
qed

lemma v1_image_step:
  assumes "distinct (map fst dockers)" and "item \<in> set dockers"
    and "v1_image_listings item = Some ys" and "distinct (map fst (fst st))"
  shows "\<exists>st'. v1_image ov (PDict dockers) (fst item) st = Inr st' \<and> distinct (map fst (fst st')) \<and>
            map_of (fst st') = map_of (fst st) ++ listed ov ys"
proof -
  have look: "map_of dockers (fst item) = Some (snd item)"
    using assms(1,2) by (cases item) simp
  from assms(3) obtain dd tv names tag reg where dd: "dict_of (snd item) = Some dd"
    and tv: "map_of dd ''tasks'' = Some tv" and names: "names_of tv = Some names"
    and tag: "map_of dd ''docker_tag'' = Some tag"
    and reg: "map_of dd ''docker_registry'' = Some reg"
    and ys: "ys = map (\<lambda>n. \<lparr> l_group = ''container_actions'', l_task = n, l_image = fst item,
                l_tag = tag, l_registry = reg, l_digest = opt_digest dd \<rparr>) names"
    by (auto simp: v1_image_listings_def bind_eq_Some_conv)
  from names_of_Some [OF names] obtain ts where ts: "tv = PList ts" "list_all is_str ts"
    "names = map str_of ts" by blast
  have sn: "snd item = PDict dd" using dd by (rule dict_of_Some)
  have key: "''tasks'' \<in> fst ` set dd" using tv by (rule map_of_Some_key)
  from v1_task_loop [OF tag reg ts(2), of "[]" ov "fst item" "''container_actions''"]
  obtain new where "for_each (v1_task ov (fst item) (PDict dd)) ts [] = Inr new"
    "distinct (map fst new)" "map_of new = listed ov ys"
    unfolding ys ts(3) by auto
  then show ?thesis using look sn key tv ts(1) image_step [OF _ _ assms(4), of new ov ys "fst item"]
    by (simp add: v1_image_def v1_comprehension_def)
qed

lemma v3_group_step:
  assumes "group_listings item = Some ys"
  shows "\<exists>loc imgs. v3_group ov item st = Inr (AList.update (fst item) loc (fst st), imgs) \<and>
            map_of loc = listed ov ys"
proof -
  from assms obtain gd dv images where gd: "dict_of (snd item) = Some gd"
    and dv: "map_of gd ''dockers'' = Some dv" and im: "dict_of dv = Some images"
    and g: "gather (image_listings (fst item)) images = Some ys"
    by (auto simp: group_listings_def bind_eq_Some_conv)
  have "\<exists>r. for_each (v3_image ov) images ([], snd st) = Inr r \<and>
           distinct (map fst (fst r)) \<and> map_of (fst r) = map_of (fst ([] :: task_dict, snd st)) ++ listed ov ys"
  proof (rule for_each_gather [OF g, where I = "\<lambda>s. distinct (map fst (fst s))"
        and R = "\<lambda>s. map_of (fst s)"])
    fix x zs and s :: "task_dict \<times> string set"
    assume "x \<in> set images" "image_listings (fst item) x = Some zs" "distinct (map fst (fst s))"
    then show "\<exists>s'. v3_image ov x s = Inr s' \<and> distinct (map fst (fst s')) \<and>
            map_of (fst s') = map_of (fst s) ++ listed ov zs"
      using v3_image_step by blast
  qed simp
  then obtain r where "for_each (v3_image ov) images ([], snd st) = Inr r" "map_of (fst r) = listed ov ys"
    by auto
  then show ?thesis
    using dict_of_Some [OF gd] dict_of_Some [OF im] dv by (auto simp: v3_group_def)
qed

lemma v3_groups_loop:
  assumes "gather group_listings groups = Some L" and "distinct (map fst groups)"
  shows "\<exists>st'. for_each (v3_group ov) groups st = Inr st' \<and>
           (\<forall>item ys. item \<in> set groups \<longrightarrow> group_listings item = Some ys \<longrightarrow>
              (\<exists>loc. map_of (fst st') (fst item) = Some loc \<and> map_of loc = listed ov ys)) \<and>
           (\<forall>g. g \<notin> fst ` set groups \<longrightarrow> map_of (fst st') g = map_of (fst st) g)"
  using assms
proof (induction groups arbitrary: st L)
  case Nil
  then show ?case by simp
next
  case (Cons x groups)
  from gather_Cons_Some [OF Cons.prems(1)] obtain ys zs where fx: "group_listings x = Some ys"
    and g: "gather group_listings groups = Some zs"
    by blast
  from Cons.prems(2) have xnot: "fst x \<notin> fst ` set groups" and dg: "distinct (map fst groups)"
    by simp_all
  from v3_group_step [OF fx, of ov st] obtain loc imgs where
    b: "v3_group ov x st = Inr (AList.update (fst x) loc (fst st), imgs)" and ml: "map_of loc = listed ov ys"
    by blast
  let ?s1 = "(AList.update (fst x) loc (fst st), imgs)"
  from Cons.IH [OF g dg, of ?s1] obtain st' where
    r: "for_each (v3_group ov) groups ?s1 = Inr st'"
    and inside: "\<forall>item ys. item \<in> set groups \<longrightarrow> group_listings item = Some ys \<longrightarrow>
              (\<exists>loc. map_of (fst st') (fst item) = Some loc \<and> map_of loc = listed ov ys)"
    and outside: "\<forall>g. g \<notin> fst ` set groups \<longrightarrow> map_of (fst st') g = map_of (fst ?s1) g"
    by blast
  have run: "for_each (v3_group ov) (x # groups) st = Inr st'" using b r by simp
  have atx: "map_of (fst st') (fst x) = Some loc"
    using outside xnot by (simp add: update_conv')
  have "\<forall>item ys. item \<in> set (x # groups) \<longrightarrow> group_listings item = Some ys \<longrightarrow>
              (\<exists>loc. map_of (fst st') (fst item) = Some loc \<and> map_of loc = listed ov ys)"
    using inside atx ml fx by auto
  moreover have "\<forall>g. g \<notin> fst ` set (x # groups) \<longrightarrow> map_of (fst st') g = map_of (fst st) g"
    using outside by (simp add: update_conv')
  ultimately show ?case using run by blast
qed

lemma single_group:
  assumes "\<And>l. l \<in> set L \<Longrightarrow> l_group l = g" and "map_of loc = listed ov L"
  shows "\<forall>l\<in>set L. \<exists>loc'. map_of [(g, loc)] (l_group l) = Some loc' \<and>
            map_of loc' = listed ov (filter (\<lambda>l'. l_group l' = l_group l) L)"
proof
  fix l assume l: "l \<in> set L"
  have "filter (\<lambda>l'. l_group l' = g) L = L" using assms(1) by (simp add: filter_id_conv)
  then show "\<exists>loc'. map_of [(g, loc)] (l_group l) = Some loc' \<and>
            map_of loc' = listed ov (filter (\<lambda>l'. l_group l' = l_group l) L)"
    using assms l by simp
qed

lemma parse_refines_v1:
  assumes v: "map_of kvs ''format_version'' = Some version" "eq_float version 1"
    and d: "map_of kvs ''dockers'' = Some (PDict dockers)" "distinct (map fst dockers)"
    and g: "gather v1_image_listings dockers = Some L"
  shows "\<exists>tm imgs. parse_launcher_config ov (PDict kvs) = Inr (tm, imgs) \<and>
           (\<forall>l\<in>set L. \<exists>loc. map_of tm (l_group l) = Some loc \<and>
              map_of loc = listed ov (filter (\<lambda>l'. l_group l' = l_group l) L))"
proof -
  have "\<exists>r. for_each (\<lambda>item. v1_image ov (PDict dockers) (fst item)) dockers ([], {}) = Inr r \<and>
           distinct (map fst (fst r)) \<and>
           map_of (fst r) = map_of (fst ([] :: task_dict, {} :: string set)) ++ listed ov L"
  proof (rule for_each_gather [OF g, where I = "\<lambda>s. distinct (map fst (fst s))"
        and R = "\<lambda>s. map_of (fst s)"])
    fix x zs and s :: "task_dict \<times> string set"
    assume "x \<in> set dockers" "v1_image_listings x = Some zs" "distinct (map fst (fst s))"
    then show "\<exists>s'. v1_image ov (PDict dockers) (fst x) s = Inr s' \<and> distinct (map fst (fst s')) \<and>
            map_of (fst s') = map_of (fst s) ++ listed ov zs"
      using v1_image_step [OF d(2)] by blast
  qed simp
  then obtain r where r: "for_each (v1_image ov (PDict dockers)) (map fst dockers) ([], {}) = Inr r"
    and m: "map_of (fst r) = listed ov L"
    by (auto simp: for_each_map)
  have p: "parse_launcher_config ov (PDict kvs) = Inr ([(''container_actions'', fst r)], snd r)"
    using v d(1) r map_of_Some_key [OF v(1)] by (simp add: parse_launcher_config_def)
  have grp: "\<And>l. l \<in> set L \<Longrightarrow> l_group l = ''container_actions''"
    by (rule gather_all [OF g]) (rule v1_image_listings_group)
  show ?thesis using p single_group [OF grp m] by blast
qed

lemma parse_refines_v2:
  assumes v: "map_of kvs ''format_version'' = Some version" "eq_float version 2"
    and d: "map_of kvs ''dockers'' = Some (PDict dockers)" "distinct (map fst dockers)"
    and g: "gather (image_listings ''container_actions'') dockers = Some L"
  shows "\<exists>tm imgs. parse_launcher_config ov (PDict kvs) = Inr (tm, imgs) \<and>
           (\<forall>l\<in>set L. \<exists>loc. map_of tm (l_group l) = Some loc \<and>
              map_of loc = listed ov (filter (\<lambda>l'. l_group l' = l_group l) L))"
proof -
  have "\<exists>r. for_each (\<lambda>item. v2_image ov (PDict dockers) (fst item)) dockers ([], {}) = Inr r \<and>
           distinct (map fst (fst r)) \<and>
           map_of (fst r) = map_of (fst ([] :: task_dict, {} :: string set)) ++ listed ov L"
  proof (rule for_each_gather [OF g, where I = "\<lambda>s. distinct (map fst (fst s))"
        and R = "\<lambda>s. map_of (fst s)"])
    fix x zs and s :: "task_dict \<times> string set"
    assume "x \<in> set dockers" "image_listings ''container_actions'' x = Some zs"
      "distinct (map fst (fst s))"
    then show "\<exists>s'. v2_image ov (PDict dockers) (fst x) s = Inr s' \<and> distinct (map fst (fst s')) \<and>
            map_of (fst s') = map_of (fst s) ++ listed ov zs"
      using v2_image_step [OF d(2)] by blast
  qed simp
  then obtain r where r: "for_each (v2_image ov (PDict dockers)) (map fst dockers) ([], {}) = Inr r"
    and m: "map_of (fst r) = listed ov L"
    by (auto simp: for_each_map)
  have p: "parse_launcher_config ov (PDict kvs) = Inr ([(''container_actions'', fst r)], snd r)"
    using v d(1) r map_of_Some_key [OF v(1)] eq_float_2_not_1 [OF v(2)]
    by (simp add: parse_launcher_config_def)
  have grp: "\<And>l. l \<in> set L \<Longrightarrow> l_group l = ''container_actions''"
    by (rule gather_all [OF g]) (rule image_listings_group)
  show ?thesis using p single_group [OF grp m] by blast
qed

lemma parse_refines_v3:
  assumes v: "map_of kvs ''format_version'' = Some version" "eq_float version 3"
    and d: "map_of kvs ''task_group'' = Some (PDict groups)" "distinct (map fst groups)"
    and g: "gather group_listings groups = Some L"
  shows "\<exists>tm imgs. parse_launcher_config ov (PDict kvs) = Inr (tm, imgs) \<and>
           (\<forall>l\<in>set L. \<exists>loc. map_of tm (l_group l) = Some loc \<and>
              map_of loc = listed ov (filter (\<lambda>l'. l_group l' = l_group l) L))"
proof -
  from v3_groups_loop [OF g d(2), of ov "([], {})"] obtain st' where
    r: "for_each (v3_group ov) groups ([], {}) = Inr st'"
    and inside: "\<forall>item ys. item \<in> set groups \<longrightarrow> group_listings item = Some ys \<longrightarrow>
              (\<exists>loc. map_of (fst st') (fst item) = Some loc \<and> map_of loc = listed ov ys)"
    by blast
  have p: "parse_launcher_config ov (PDict kvs) = Inr (fst st', snd st')"
    using r d(1) by (simp add: parse_v3 [OF v])
  have "\<forall>l\<in>set L. \<exists>loc. map_of (fst st') (l_group l) = Some loc \<and>
              map_of loc = listed ov (filter (\<lambda>l'. l_group l' = l_group l) L)"
  proof
    fix l assume "l \<in> set L"
    from gather_set [OF g this] obtain item ys where item: "item \<in> set groups"
      and ys: "group_listings item = Some ys" and l: "l \<in> set ys"
      by blast
    have lg: "l_group l = fst item" using ys l by (rule group_listings_group)
    have f: "filter (\<lambda>l'. l_group l' = fst item) L = ys"
      by (rule gather_filter [OF g d(2) _ item ys]) (rule group_listings_group)
    from inside item ys obtain loc where "map_of (fst st') (fst item) = Some loc"
      "map_of loc = listed ov ys"
      by blast
    then show "\<exists>loc. map_of (fst st') (l_group l) = Some loc \<and>
              map_of loc = listed ov (filter (\<lambda>l'. l_group l' = l_group l) L)"
      using f lg by simp
  qed
  then show ?thesis using p by blast
qed

lemma parse_refines:
  assumes "config_listings cfg = Some L"
  shows "\<exists>tm imgs. parse_launcher_config ov cfg = Inr (tm, imgs) \<and>
           (\<forall>l\<in>set L. \<exists>loc. map_of tm (l_group l) = Some loc \<and>
              map_of loc = listed ov (filter (\<lambda>l'. l_group l' = l_group l) L))"
proof -
  from assms obtain kvs version where cfg: "cfg = PDict kvs"
    and v: "map_of kvs ''format_version'' = Some version"
    by (auto simp: config_listings_def bind_eq_Some_conv dest: dict_of_Some)
  from assms cfg v have rest:
    "(if eq_float version 1 then
         Option.bind (map_of kvs ''dockers'') (\<lambda>dv.
         Option.bind (dict_of dv) (\<lambda>dockers.
           if distinct (map fst dockers) then gather v1_image_listings dockers else None))
       else if eq_float version 2 then
         Option.bind (map_of kvs ''dockers'') (\<lambda>dv.
         Option.bind (dict_of dv) (\<lambda>dockers.
           if distinct (map fst dockers)
           then gather (image_listings ''container_actions'') dockers else None))
       else if eq_float version 3 then
         Option.bind (map_of kvs ''task_group'') (\<lambda>gv.
         Option.bind (dict_of gv) (\<lambda>groups.
           if distinct (map fst groups) then gather group_listings groups else None))
       else None) = Some L"
    by (simp add: config_listings_def)
  consider (one) "eq_float version 1"
    | (two) "\<not> eq_float version 1" "eq_float version 2"
    | (three) "\<not> eq_float version 1" "\<not> eq_float version 2" "eq_float version 3"
    using rest by (auto split: if_splits)
  then show ?thesis
  proof cases
    case one
    with rest obtain dockers where "map_of kvs ''dockers'' = Some (PDict dockers)"
      "distinct (map fst dockers)" "gather v1_image_listings dockers = Some L"
      by (auto simp: bind_eq_Some_conv split: if_splits dest: dict_of_Some)
    from parse_refines_v1 [OF v one this] show ?thesis unfolding cfg .
  next
    case two
    with rest obtain dockers where "map_of kvs ''dockers'' = Some (PDict dockers)"
      "distinct (map fst dockers)" "gather (image_listings ''container_actions'') dockers = Some L"
      by (auto simp: bind_eq_Some_conv split: if_splits dest: dict_of_Some)
    from parse_refines_v2 [OF v two(2) this] show ?thesis unfolding cfg .
  next
    case three
    with rest obtain groups where "map_of kvs ''task_group'' = Some (PDict groups)"
      "distinct (map fst groups)" "gather group_listings groups = Some L"
      by (auto simp: bind_eq_Some_conv split: if_splits dest: dict_of_Some)
    from parse_refines_v3 [OF v three(3) this] show ?thesis unfolding cfg .
  qed
qed

section \<open>Loops\<close>

lemma for_each_append:
  "for_each body (xs @ ys) s = and_then (for_each body xs s) (for_each body ys)"
proof (induction xs arbitrary: s)
  case Nil
  then show ?case by simp
next
  case (Cons x xs)
  then show ?case by (cases "body x s") simp_all
qed

lemma for_each_invariant:
  assumes "for_each body xs s = Inr s'" and "I s"
    and "\<And>x s s'. x \<in> set xs \<Longrightarrow> I s \<Longrightarrow> body x s = Inr s' \<Longrightarrow> I s'"
  shows "I s'"
  using assms
proof (induction xs arbitrary: s)
  case Nil
  then show ?case by simp
next
  case (Cons x xs)
  from for_each_Cons_Inr [OF Cons.prems(1)]
  obtain s1 where b: "body x s = Inr s1" and r: "for_each body xs s1 = Inr s'"
    by blast
  have "I s1" using Cons.prems(3) [of x s s1] Cons.prems(2) b by simp
  show ?case
  proof (rule Cons.IH [OF r \<open>I s1\<close>])
    fix y t t' assume "y \<in> set xs" "I t" "body y t = Inr t'"
    then show "I t'" using Cons.prems(3) [of y t t'] by simp
  qed
qed

lemma for_each_fails:
  assumes "x \<in> set xs" and "\<And>s. \<exists>e. body x s = Inl e"
  shows "\<exists>e. for_each body xs s = Inl e"
  using assms(1)
proof (induction xs arbitrary: s)
  case Nil
  then show ?case by simp
next
  case (Cons y xs)
  show ?case
  proof (cases "body y s")
    case (Inl e)
    then show ?thesis by simp
  next
    case (Inr s1)
    have "x \<noteq> y" using Inr assms(2) [of s] by auto
    with Cons.prems have "x \<in> set xs" by simp
    from Cons.IH [OF this, of s1] show ?thesis using Inr by simp
  qed
qed

section \<open>The mounts file\<close>

lemma mount_round_missing_source:
  assumes "map_of kvs ''source'' = Some (PStr src)"
    and "\<not> path_exists fs (realpath fs (expanduser fs src))"
  shows "\<exists>e. mount_round fs (PDict kvs) mount_points = Inl e"
proof (cases "''source'' \<in> set (map fst kvs) \<and> ''destination'' \<in> set (map fst kvs)")
  case False
  then show ?thesis by auto
next
  case True
  show ?thesis
  proof (cases "and_then (py_getitem (PDict kvs) ''destination'') path_arg")
    case (Inl e)
    then show ?thesis using True assms(1) by (auto simp: and_then_def split: sum.splits)
  next
    case (Inr dst)
    then show ?thesis using True assms by (auto simp: and_then_def split: sum.splits)
  qed
qed

lemma mounts_item_missing_source:
  assumes "PDict kvs \<in> set mounts" and "map_of kvs ''source'' = Some (PStr src)"
    and "\<not> path_exists fs (realpath fs (expanduser fs src))"
  shows "\<exists>e. mounts_file_item fs (''Mounts'', PList mounts) st = Inl e"
proof -
  from for_each_fails [OF assms(1), of "mount_round fs" "fst st"]
    mount_round_missing_source [OF assms(2,3)]
  obtain e where "for_each (mount_round fs) mounts (fst st) = Inl e"
    by blast
  then show ?thesis by (simp add: mounts_file_item_def)
qed

lemma mounts_item_unknown_key:
  assumes "k \<notin> {''Mounts'', ''Envs'', ''DockerOptions''}"
  shows "mounts_file_item fs (k, v) st = Inl KeyError"
  using assms by (simp add: mounts_file_item_def)

lemma get_mount_env_data_fails:
  assumes "path_exists fs (h_docker_mount_file h)"
    and "read_json fs (h_docker_mount_file h) = Inr (PDict data)"
    and "item \<in> set data" and "\<And>st. \<exists>e. mounts_file_item fs item st = Inl e"
  shows "\<exists>e. get_mount_env_data fs h = Inl e"
proof (cases "''Mounts'' \<in> set (map fst data)")
  case False
  then show ?thesis using assms(1,2) by (simp add: get_mount_env_data_def)
next
  case True
  from for_each_fails [OF assms(3), of "mounts_file_item fs" "([], [], PDict [])"] assms(4)
  obtain e where "for_each (mounts_file_item fs) data ([], [], PDict []) = Inl e"
    by blast
  then show ?thesis using True assms(1,2) by (simp add: get_mount_env_data_def)
qed

section \<open>The volumes\<close>

lemma volume_round_Inr:
  assumes "volume_round fs m vols = Inr vols'"
  shows "\<exists>src dst. mount_path fs m ''source'' = Inr src \<and> mount_path fs m ''destination'' = Inr dst \<and>
           vols' = AList.update src \<lparr> bind = dst, mode = ''rw'' \<rparr> vols"
  using assms by (auto simp: volume_round_def and_then_eq_Inr)

lemma set_update_subset: "set (AList.update k v al) \<subseteq> insert (k, v) (set al)"
  by (induction al) auto

lemma volume_round_mode:
  assumes "volume_round fs m vols = Inr vols'" and "\<forall>v\<in>snd ` set vols. mode v = ''rw''"
  shows "\<forall>v\<in>snd ` set vols'. mode v = ''rw''"
proof
  fix x assume "x \<in> snd ` set vols'"
  then obtain p where px: "(p, x) \<in> set vols'" by force
  from volume_round_Inr [OF assms(1)] obtain src dst where
    v: "vols' = AList.update src \<lparr> bind = dst, mode = ''rw'' \<rparr> vols"
    by blast
  from px v set_update_subset [of src "\<lparr> bind = dst, mode = ''rw'' \<rparr>" vols]
  have "(p, x) = (src, \<lparr> bind = dst, mode = ''rw'' \<rparr>) \<or> (p, x) \<in> set vols"
    by blast
  then show "mode x = ''rw''"
  proof
    assume "(p, x) = (src, \<lparr> bind = dst, mode = ''rw'' \<rparr>)"
    then have "x = \<lparr> bind = dst, mode = ''rw'' \<rparr>" by simp
    then show ?thesis by simp
  next
    assume "(p, x) \<in> set vols"
    then have "x \<in> snd ` set vols" by force
    with assms(2) show ?thesis by blast
  qed
qed

lemma volumes_mode:
  assumes "for_each (volume_round fs) ms vols = Inr vols'" and "\<forall>v\<in>snd ` set vols. mode v = ''rw''"
  shows "\<forall>v\<in>snd ` set vols'. mode v = ''rw''"
proof (rule for_each_invariant [OF assms(1), where I = "\<lambda>vs. \<forall>v\<in>snd ` set vs. mode v = ''rw''"])
  show "\<forall>v\<in>snd ` set vols. mode v = ''rw''" by (rule assms(2))
next
  fix x s s'
  assume "x \<in> set ms" "\<forall>v\<in>snd ` set s. mode v = ''rw''" "volume_round fs x s = Inr s'"
  then show "\<forall>v\<in>snd ` set s'. mode v = ''rw''" using volume_round_mode by blast
qed

lemma volumes_keep:
  assumes "for_each (volume_round fs) ms vols = Inr vols'"
    and "\<forall>m\<in>set ms. mount_path fs m ''source'' \<noteq> Inr src"
  shows "map_of vols' src = map_of vols src"
  using assms
proof (induction ms arbitrary: vols)
  case Nil
  then show ?case by simp
next
  case (Cons m ms)
  from for_each_Cons_Inr [OF Cons.prems(1)] obtain v1 where b: "volume_round fs m vols = Inr v1"
    and r: "for_each (volume_round fs) ms v1 = Inr vols'"
    by blast
  from volume_round_Inr [OF b] obtain s d where s: "mount_path fs m ''source'' = Inr s"
    and v1: "v1 = AList.update s \<lparr> bind = d, mode = ''rw'' \<rparr> vols"
    by blast
  have "s \<noteq> src" using Cons.prems(2) s by auto
  then have "map_of v1 src = map_of vols src" by (simp add: v1 update_conv')
  moreover have "map_of vols' src = map_of v1 src"
    using Cons.IH [OF r] Cons.prems(2) by simp
  ultimately show ?case by simp
qed

section \<open>Computations with effects\<close>

lemma then_eff_no_effect_Inr [simp]: "then_eff (no_effect (Inr x)) f = f x"
  by (simp add: then_eff_def no_effect_def)

lemma then_eff_no_effect_Inl [simp]: "then_eff (no_effect (Inl e)) f = (Inl e, [])"
  by (simp add: then_eff_def no_effect_def)

lemma then_eff_Inl [simp]: "then_eff (Inl e, calls) f = (Inl e, calls)"
  by (simp add: then_eff_def)

lemma then_eff_Inr [simp]: "then_eff (Inr x, calls) f = (fst (f x), calls @ snd (f x))"
  by (simp add: then_eff_def)

lemma then_eff_fst_Inl: "fst m = Inl e \<Longrightarrow> snd (then_eff m f) = snd m"
  by (simp add: then_eff_def)

lemma then_eff_fst_Inr: "fst m = Inr x \<Longrightarrow> snd (then_eff m f) = snd m @ snd (f x)"
  by (simp add: then_eff_def)

lemma then_eff_no_effect_calls:
  assumes "P []" and "\<And>x. P (snd (f x))"
  shows "P (snd (then_eff (no_effect r) f))"
  using assms by (cases r) simp_all

section \<open>The calls of run_container\<close>

lemma finally_stop_calls:
  assumes "h_container h = Some c"
  shows "\<exists>stops. snd (finally_stop eng h (try_check_call eng h cl)) = Exec cl # stops @ [Stop (c_id c)]
           \<and> set stops \<subseteq> {Stop (c_id c)}"
proof -
  have stop: "snd (stop_container eng h) = [Stop (c_id c)]"
    using assms by (simp add: stop_container_def)
  have body: "snd (try_check_call eng h cl) = [Exec cl] \<or>
              snd (try_check_call eng h cl) = [Exec cl, Stop (c_id c)]"
  proof (cases "exec_result eng")
    case Returned
    then show ?thesis by (simp add: try_check_call_def)
  next
    case (CalledProcessError out)
    show ?thesis
    proof (cases out)
      case None
      with CalledProcessError show ?thesis by (simp add: try_check_call_def except_clause_def)
    next
      case (Some msg)
      with CalledProcessError assms show ?thesis
        by (cases "stop_error eng") (simp_all add: try_check_call_def except_clause_def stop_container_def)
    qed
  next
    case (Raised e)
    then show ?thesis by (simp add: try_check_call_def)
  qed
  have fin: "snd (finally_stop eng h (try_check_call eng h cl))
      = snd (try_check_call eng h cl) @ [Stop (c_id c)]"
    using assms stop by (cases "fst (stop_container eng h)") (simp_all add: finally_stop_def)
  from body show ?thesis
  proof
    assume "snd (try_check_call eng h cl) = [Exec cl]"
    with fin have "snd (finally_stop eng h (try_check_call eng h cl)) = Exec cl # [] @ [Stop (c_id c)]"
      by simp
    then show ?thesis by (intro exI [of _ "[]"]) simp
  next
    assume "snd (try_check_call eng h cl) = [Exec cl, Stop (c_id c)]"
    with fin have "snd (finally_stop eng h (try_check_call eng h cl))
        = Exec cl # [Stop (c_id c)] @ [Stop (c_id c)]"
      by simp
    then show ?thesis by (intro exI [of _ "[Stop (c_id c)]"]) simp
  qed
qed

lemma start_container_cases:
  "(\<exists>e. start_container fs eng h volumes envs opts = (Inl e, [])) \<or>
   (\<exists>img c. run_result eng = Inr c \<and>
      start_container fs eng h volumes envs opts = (Inr (h\<lparr> h_container := Some c \<rparr>), [Start img (c_id c)]))"
proof (cases "get_docker_option_args opts")
  case (Inl e)
  then show ?thesis by (simp add: start_container_def)
next
  case args: (Inr docker_args)
  show ?thesis
  proof (cases "handler_docker_image fs h")
    case (Inl e)
    with args show ?thesis by (simp add: start_container_def)
  next
    case img: (Inr img)
    show ?thesis
    proof (cases "run_result eng")
      case (Inl e)
      with args img show ?thesis by (simp add: start_container_def)
    next
      case (Inr c)
      with args img show ?thesis by (simp add: start_container_def)
    qed
  qed
qed

lemma started_part:
  "stopped_run eng (snd (then_eff (start_container fs eng h volumes envs opts) (\<lambda>h'.
       (case h_container h' of
          None \<Rightarrow> (Inl AttributeError, [])
        | Some c \<Rightarrow> finally_stop eng h' (try_check_call eng h' (cl h' c))))))"
  using start_container_cases [of fs eng h volumes envs opts]
proof (elim disjE exE conjE)
  fix e assume "start_container fs eng h volumes envs opts = (Inl e, [])"
  then show ?thesis by (simp add: stopped_run_def)
next
  fix img c
  assume r: "run_result eng = Inr c"
    and s: "start_container fs eng h volumes envs opts
              = (Inr (h\<lparr> h_container := Some c \<rparr>), [Start img (c_id c)])"
  let ?h = "h\<lparr> h_container := Some c \<rparr>"
  have hc: "h_container ?h = Some c" by simp
  from finally_stop_calls [OF hc, of eng "cl ?h c"] obtain stops where
    "snd (finally_stop eng ?h (try_check_call eng ?h (cl ?h c))) = Exec (cl ?h c) # stops @ [Stop (c_id c)]"
    "set stops \<subseteq> {Stop (c_id c)}"
    by blast
  then show ?thesis using r s by (auto simp: stopped_run_def)
qed

text \<open>What \<^verbatim>\<open>run_container\<close> does after the image check and the pull.\<close>

lemma run_container_calls:
  "(\<exists>e. check_image_exists fs h (repo_tags eng) = Inl e \<and> snd (run_container fs eng h cmd) = [])
   \<or> (\<exists>present rest. check_image_exists fs h (repo_tags eng) = Inr present \<and>
        snd (run_container fs eng h cmd) = (if present then [] else snd (pull fs eng h)) @ rest \<and>
        stopped_run eng rest)"
proof (cases "check_image_exists fs h (repo_tags eng)")
  case (Inl e)
  then show ?thesis by (simp add: run_container_def)
next
  case (Inr present)
  let ?K = "\<lambda>u::unit.
     then_eff (no_effect (get_mount_env_data fs h)) (\<lambda>data.
     then_eff (no_effect (formatted_mounts fs (PList (fst data)))) (\<lambda>volumes.
     then_eff (no_effect (formatted_envs fs (PList (fst (snd data))))) (\<lambda>env_variables.
     then_eff (no_effect (py_keys (snd (snd data)))) (\<lambda>ks.
     then_eff (no_effect (if ''tty'' \<in> set ks then py_getitem (snd (snd data)) ''tty''
                          else Inr (PBool True))) (\<lambda>tty.
     then_eff (start_container fs eng h volumes env_variables (snd (snd data))) (\<lambda>h'.
       (case h_container h' of
          None \<Rightarrow> (Inl AttributeError, [])
        | Some c \<Rightarrow>
            finally_stop eng h'
              (try_check_call eng h' (exec_command_line h' (truthy tty) (c_id c) cmd)))))))))"
  have idle: "stopped_run eng []" by (simp add: stopped_run_def)
  have K: "stopped_run eng (snd (?K u))" for u
    by (rule then_eff_no_effect_calls [where P = "stopped_run eng", OF idle])+
       (rule started_part)
  have run: "run_container fs eng h cmd
      = then_eff (if \<not> present then pull fs eng h else (Inr (), [])) ?K"
    using Inr by (simp add: run_container_def)
  show ?thesis
  proof (cases present)
    case True
    then have "run_container fs eng h cmd = then_eff (Inr (), []) ?K" unfolding run by simp
    then have "snd (run_container fs eng h cmd) = [] @ snd (?K ())"
      by (simp only: then_eff_Inr snd_conv)
    with True Inr K show ?thesis by auto
  next
    case False
    then have run': "run_container fs eng h cmd = then_eff (pull fs eng h) ?K"
      unfolding run by simp
    show ?thesis
    proof (cases "fst (pull fs eng h)")
      case (Inl e)
      then have "snd (run_container fs eng h cmd) = snd (pull fs eng h) @ []"
        unfolding run' by (simp only: then_eff_fst_Inl append_Nil2)
      with False \<open>check_image_exists fs h (repo_tags eng) = Inr present\<close> idle
      show ?thesis by auto
    next
      case (Inr u)
      then have "snd (run_container fs eng h cmd) = snd (pull fs eng h) @ snd (?K u)"
        unfolding run' by (simp only: then_eff_fst_Inr)
      with False \<open>check_image_exists fs h (repo_tags eng) = Inr present\<close> K
      show ?thesis by auto
    qed
  qed
qed

lemma check_image_exists_initialized:
  assumes "initialized h"
  shows "check_image_exists fs h tagss = Inr (list_ex (\<lambda>tags. full_image_name fs h \<in> set tags) tagss)"
proof (induction tagss)
  case Nil
  then show ?case by simp
next
  case (Cons tags rest)
  then show ?case using assms by (cases "tags = []") (simp_all add: handler_docker_image_def)
qed

lemma stopped_run_no_pull: "stopped_run eng rest \<Longrightarrow> Pull repo tag \<notin> set rest"
  by (auto simp: stopped_run_def)

lemma pull_calls:
  "snd (pull fs eng h)
     = [Pull (py_str fs (h_docker_registry h) @ ''/'' @ py_str fs (h_image_name h)) (h_docker_tag h)]"
  by (simp add: pull_def)

section \<open>Unknown versions\<close>

lemma parse_bad_version:
  assumes "map_of cfg ''format_version'' = None \<or>
           (\<exists>v. map_of cfg ''format_version'' = Some v \<and> \<not> eq_float v 1 \<and> \<not> eq_float v 2 \<and> \<not> eq_float v 3)"
  shows "parse_launcher_config ov (PDict cfg) = Inl KeyError \<or>
         parse_launcher_config ov (PDict cfg) = Inl NotImplementedError"
  using assms
proof
  assume "map_of cfg ''format_version'' = None"
  then have "''format_version'' \<notin> fst ` set cfg" by (simp add: map_of_eq_None_iff)
  then show ?thesis by (simp add: parse_launcher_config_def)
next
  assume "\<exists>v. map_of cfg ''format_version'' = Some v \<and> \<not> eq_float v 1 \<and> \<not> eq_float v 2 \<and> \<not> eq_float v 3"
  then obtain v where v: "map_of cfg ''format_version'' = Some v"
    and n: "\<not> eq_float v 1" "\<not> eq_float v 2" "\<not> eq_float v 3"
    by blast
  from v have "''format_version'' \<in> fst ` set cfg" by (rule map_of_Some_key)
  with v n show ?thesis by (simp add: parse_launcher_config_def)
qed

section \<open>Grouping\<close>

lemma last_listing_found: "l \<in> set L \<Longrightarrow> last_listing L (l_group l) (l_task l) \<noteq> None"
  by (auto simp: last_listing_def find_None_iff)

lemma parse_v12_single:
  assumes "map_of cfg ''format_version'' = Some v" and "\<not> eq_float v 3"
    and "parse_launcher_config ov (PDict cfg) = Inr (tm, imgs)"
  shows "\<exists>local_map. tm = [(''container_actions'', local_map)]"
  using assms map_of_Some_key [OF assms(1)]
  by (auto simp add: parse_launcher_config_def and_then_eq_Inr split: if_splits)

section \<open>The built-in operations\<close>

lemma instance_task_self: "fst (snd (instance_task fs eng self grp ns)) = self"
  by (simp add: instance_task_def list_running_jobs_def kill_containers_def print_information_def
      Let_def split: sum.splits)

section \<open>The instance that get_launcher returns\<close>

lemma get_launcher_handler_tasks:
  assumes "get_launcher fs config_file = Inr (l, supported)"
  shows "instance_handler_tasks (the_instance l) = INSTANCE_HANDLER_TASKS"
  using assms
  by (auto simp: get_launcher_def LocalInstance_from_config_def WHLInstance_from_config_def
      TAOInstance_init_def and_then_eq_Inr split: if_splits)

lemma get_launcher_local_supported:
  assumes "get_launcher fs config_file = Inr (LocalInstance self, supported)"
  shows "set INSTANCE_HANDLER_TASKS \<subseteq> set supported"
  using assms
  by (auto simp: get_launcher_def LocalInstance_from_config_def WHLInstance_from_config_def
      and_then_eq_Inr split: if_splits)

lemma parse_v3_groups:
  assumes "map_of cfg ''format_version'' = Some v" and "eq_float v 3"
    and "parse_launcher_config ov (PDict cfg) = Inr (tm, imgs)"
  shows "\<exists>groups. map_of cfg ''task_group'' = Some (PDict groups) \<and> fst ` set tm = fst ` set groups"
proof -
  from assms(3) obtain gv items where g: "py_getitem (PDict cfg) ''task_group'' = Inr gv"
    and i: "py_items gv = Inr items" and f: "for_each (v3_group ov) items ([], {}) = Inr (tm, imgs)"
    unfolding parse_v3 [OF assms(1,2)] by (auto simp: and_then_eq_Inr)
  from g have "map_of cfg ''task_group'' = Some gv" by (auto split: option.splits)
  moreover from i have "gv = PDict items" by (rule py_items_Inr)
  moreover from for_each_v3_group_keys [OF f] have "fst ` set tm = fst ` set items" by simp
  ultimately show ?thesis by simp
qed

section \<open>The task map lists what the configuration lists\<close>

text \<open>
  C1 does not hold as stated: the constructor of \<^verbatim>\<open>Task\<close> replaces the registry by
  \<^verbatim>\<open>OVERRIDE_REGISTRY\<close> when that environment variable is set. The version 1.0
  example lists both of its tasks under the registry \<^verbatim>\<open>nvcr.io\<close>; parsed with the
  override \<^verbatim>\<open>stg.nvcr.io\<close>, the task map holds them with the registry
  \<^verbatim>\<open>stg.nvcr.io\<close>.
\<close>

theorem parse_launcher_config_override_registry:
  "config_listings example_v1 = Some [example_listing ''detectnet_v2'', example_listing ''unet'']
   \<and> l_registry (example_listing ''unet'') = PStr ''nvcr.io''
   \<and> parse_launcher_config (Some ''stg.nvcr.io'') example_v1
       = Inr ([(''container_actions'',
                [(KStr ''detectnet_v2'', example_task ''stg.nvcr.io'' ''detectnet_v2''),
                 (KStr ''unet'', example_task ''stg.nvcr.io'' ''unet'')])],
              {''nvidia/tao/tao-toolkit''})
   \<and> docker_registry (example_task ''stg.nvcr.io'' ''unet'') = PStr ''stg.nvcr.io''
   \<and> docker_registry (example_task ''stg.nvcr.io'' ''unet'') \<noteq> l_registry (example_listing ''unet'')"
  by code_simp

text \<open>
  C1, amended. For every configuration of a known schema version that has the shape the
  specification describes (\<open>config_listings\<close> gives its listings \<open>L\<close>) and every task
  name \<open>nm\<close> that a task group \<open>grp\<close> lists, \<^verbatim>\<open>parse_launcher_config\<close> returns a
  task map whose group \<open>grp\<close> maps \<open>nm\<close> to a Task with that name and with the image
  and the tag under which the name is listed (for version 1.0 the tag is the image's
  \<^verbatim>\<open>docker_tag\<close>; for 2.0 and 3.0 it is the key of the tag entry that holds the task).
  Its registry is the listed one when \<^verbatim>\<open>OVERRIDE_REGISTRY\<close> is unset, and the value of
  \<^verbatim>\<open>OVERRIDE_REGISTRY\<close> otherwise. When a group lists a name more than once, the
  listing meant is the last one in file order.
\<close>

theorem parse_launcher_config_listed_task:
  assumes "config_listings cfg = Some L" and "last_listing L grp nm = Some l"
  shows "\<exists>tm imgs loc t. parse_launcher_config ov cfg = Inr (tm, imgs) \<and>
           map_of tm grp = Some loc \<and> map_of loc (KStr nm) = Some t \<and>
           name t = PStr nm \<and>
           docker_image t = PStr (l_image l) \<and> docker_tag t = l_tag l \<and>
           docker_registry t = (case ov of None \<Rightarrow> l_registry l | Some r \<Rightarrow> PStr r)"
proof -
  from last_listing_Some [OF assms(2)] have l: "l \<in> set L" "l_group l = grp" "l_task l = nm"
    by simp_all
  from parse_refines [OF assms(1), of ov] l(1) obtain tm imgs loc where
    p: "parse_launcher_config ov cfg = Inr (tm, imgs)" and tm: "map_of tm (l_group l) = Some loc"
    and loc: "map_of loc = listed ov (filter (\<lambda>l'. l_group l' = l_group l) L)"
    by blast
  have "map_of loc (KStr nm) = Some (task_of_listing ov l)"
    using loc assms(2) l(2) by (simp add: listed_group_lookup)
  then show ?thesis using p tm l(2,3) by (simp add: task_of_listing_def Task_init_def)
qed

theorem parse_launcher_config_listed_task_witness:
  "config_listings example_v1 = Some [example_listing ''detectnet_v2'', example_listing ''unet'']
   \<and> last_listing [example_listing ''detectnet_v2'', example_listing ''unet'']
        ''container_actions'' ''unet'' = Some (example_listing ''unet'')
   \<and> (\<exists>tm imgs loc t. parse_launcher_config None example_v1 = Inr (tm, imgs) \<and>
         map_of tm ''container_actions'' = Some loc \<and> map_of loc (KStr ''unet'') = Some t \<and>
         name t = PStr ''unet'' \<and> docker_image t = PStr ''nvidia/tao/tao-toolkit'' \<and>
         docker_tag t = PStr ''v3.21.08-py3'' \<and> docker_registry t = PStr ''nvcr.io'')"
proof (intro conjI)
  show a: "config_listings example_v1
             = Some [example_listing ''detectnet_v2'', example_listing ''unet'']"
    by code_simp
  show b: "last_listing [example_listing ''detectnet_v2'', example_listing ''unet'']
             ''container_actions'' ''unet'' = Some (example_listing ''unet'')"
    by code_simp
  show "\<exists>tm imgs loc t. parse_launcher_config None example_v1 = Inr (tm, imgs) \<and>
         map_of tm ''container_actions'' = Some loc \<and> map_of loc (KStr ''unet'') = Some t \<and>
         name t = PStr ''unet'' \<and> docker_image t = PStr ''nvidia/tao/tao-toolkit'' \<and>
         docker_tag t = PStr ''v3.21.08-py3'' \<and> docker_registry t = PStr ''nvcr.io''"
    using parse_launcher_config_listed_task [OF a b, of None]
    by (simp add: example_listing_def)
qed

section \<open>A missing or unknown format version\<close>

text \<open>
  C2. For every configuration dictionary that has no key \<^verbatim>\<open>format_version\<close>, or whose
  \<^verbatim>\<open>format_version\<close> compares unequal to each of 1.0, 2.0 and 3.0,
  \<^verbatim>\<open>parse_launcher_config\<close> raises (KeyError in the first case, NotImplementedError in
  the second) and returns no task map, whatever \<^verbatim>\<open>OVERRIDE_REGISTRY\<close> is. The
  failure is fatal: when that dictionary is what the configuration file of the invocation
  holds, neither instance class builds an instance from it, and \<^verbatim>\<open>main\<close> ends with an
  exception before any call reaches the docker engine or the shell; the exit status of the
  process is then 1.
\<close>

theorem parse_launcher_config_unknown_version_fatal:
  assumes "map_of cfg ''format_version'' = None \<or>
           (\<exists>v. map_of cfg ''format_version'' = Some v \<and> \<not> eq_float v 1 \<and> \<not> eq_float v 2 \<and> \<not> eq_float v 3)"
    and "load_config_file fs (get_config_file fs) = Inr (PDict cfg)"
  shows "(\<exists>e. parse_launcher_config ov (PDict cfg) = Inl e \<and> e \<in> {KeyError, NotImplementedError})
       \<and> (\<exists>e. LocalInstance_from_config fs (get_config_file fs) = Inl e)
       \<and> (\<exists>e. WHLInstance_from_config fs (get_config_file fs) = Inl e)
       \<and> (\<exists>e. main fs eng args = (Inl e, []) \<and> exit_status (Inl e) = 1)"
proof -
  have p: "parse_launcher_config ov (PDict cfg) = Inl KeyError \<or>
           parse_launcher_config ov (PDict cfg) = Inl NotImplementedError" for ov
    using parse_bad_version [OF assms(1)] .
  then have first: "\<exists>e. parse_launcher_config ov (PDict cfg) = Inl e \<and> e \<in> {KeyError, NotImplementedError}"
    by auto
  have loc: "LocalInstance_from_config fs (get_config_file fs) = Inl KeyError \<or>
             LocalInstance_from_config fs (get_config_file fs) = Inl NotImplementedError"
    using p [of "environ fs ''OVERRIDE_REGISTRY''"] assms(2)
    by (auto simp: LocalInstance_from_config_def)
  have whl: "WHLInstance_from_config fs (get_config_file fs) = Inl KeyError \<or>
             WHLInstance_from_config fs (get_config_file fs) = Inl NotImplementedError"
    using p [of "environ fs ''OVERRIDE_REGISTRY''"] assms(2)
    by (auto simp: WHLInstance_from_config_def)
  have "get_launcher fs (get_config_file fs) = Inl AssertionError \<or>
        get_launcher fs (get_config_file fs) = Inl KeyError \<or>
        get_launcher fs (get_config_file fs) = Inl NotImplementedError"
    using loc whl by (auto simp: get_launcher_def)
  then have "main fs eng args = (Inl AssertionError, []) \<or> main fs eng args = (Inl KeyError, [])
      \<or> main fs eng args = (Inl NotImplementedError, [])"
    by (auto simp: main_def)
  then have "\<exists>e. main fs eng args = (Inl e, []) \<and> exit_status (Inl e) = 1"
    by auto
  with first loc whl show ?thesis by blast
qed

theorem parse_launcher_config_unknown_version_fatal_witness:
  "load_config_file (example_host [(example_config_path, PDict example_v4)] [])
       (get_config_file (example_host [(example_config_path, PDict example_v4)] []))
     = Inr (PDict example_v4)
   \<and> map_of example_v4 ''format_version'' = Some (PFloat 4)
   \<and> (\<exists>e. parse_launcher_config None (PDict example_v4) = Inl e
          \<and> e \<in> {KeyError, NotImplementedError})
   \<and> (\<exists>e. main (example_host [(example_config_path, PDict example_v4)] [])
               (example_engine [] Returned) [''list''] = (Inl e, [])
          \<and> exit_status (Inl e) = 1)"
proof -
  have v: "map_of example_v4 ''format_version'' = Some (PFloat 4)"
    by (simp add: example_v4_def)
  then have a: "map_of example_v4 ''format_version'' = None \<or>
      (\<exists>v. map_of example_v4 ''format_version'' = Some v
         \<and> \<not> eq_float v 1 \<and> \<not> eq_float v 2 \<and> \<not> eq_float v 3)"
    by simp
  have b: "load_config_file (example_host [(example_config_path, PDict example_v4)] [])
       (get_config_file (example_host [(example_config_path, PDict example_v4)] []))
     = Inr (PDict example_v4)"
    by code_simp
  from parse_launcher_config_unknown_version_fatal
         [OF a b, of None "example_engine [] Returned" "[''list'']"] v b
  show ?thesis by simp
qed

section \<open>Grouping of the task map\<close>

text \<open>
  C3. The task map that \<^verbatim>\<open>parse_launcher_config\<close> returns is grouped by task group
  only for version 3.0: there its top-level keys are exactly the keys of the section
  \<^verbatim>\<open>task_group\<close> of the configuration. For every other version for which the parser
  returns, which is 1.0 or 2.0, the task map has exactly one top-level key,
  \<^verbatim>\<open>container_actions\<close>, and every task that the configuration lists is a key of its
  dict.
\<close>

theorem parse_launcher_config_grouping:
  assumes "parse_launcher_config ov (PDict cfg) = Inr (tm, imgs)"
    and "map_of cfg ''format_version'' = Some v"
  shows "(eq_float v 3 \<longrightarrow>
            (\<exists>groups. map_of cfg ''task_group'' = Some (PDict groups) \<and> fst ` set tm = fst ` set groups))
       \<and> (\<not> eq_float v 3 \<longrightarrow>
            (eq_float v 1 \<or> eq_float v 2) \<and>
            (\<exists>local_map. tm = [(''container_actions'', local_map)] \<and>
               (\<forall>L l. config_listings (PDict cfg) = Some L \<longrightarrow> l \<in> set L \<longrightarrow>
                  KStr (l_task l) \<in> fst ` set local_map)))"
proof (intro conjI impI)
  assume "eq_float v 3"
  then show "\<exists>groups. map_of cfg ''task_group'' = Some (PDict groups) \<and> fst ` set tm = fst ` set groups"
    using parse_v3_groups [OF assms(2) _ assms(1)] by simp
next
  assume n3: "\<not> eq_float v 3"
  show "eq_float v 1 \<or> eq_float v 2"
    using assms n3 map_of_Some_key [OF assms(2)]
    by (auto simp add: parse_launcher_config_def split: if_splits)
  from parse_v12_single [OF assms(2) n3 assms(1)] obtain local_map where
    tm: "tm = [(''container_actions'', local_map)]"
    by blast
  have "KStr (l_task l) \<in> fst ` set local_map"
    if L: "config_listings (PDict cfg) = Some L" and l: "l \<in> set L" for L l
  proof -
    from parse_refines [OF L, of ov] assms(1) l obtain loc where
      g: "map_of tm (l_group l) = Some loc"
      and m: "map_of loc = listed ov (filter (\<lambda>l'. l_group l' = l_group l) L)"
      by auto
    from g tm have "loc = local_map" by (auto split: if_splits)
    moreover from last_listing_found [OF l] obtain l' where
      "last_listing L (l_group l) (l_task l) = Some l'"
      by auto
    then have "map_of loc (KStr (l_task l)) = Some (task_of_listing ov l')"
      using m by (simp add: listed_group_lookup)
    ultimately show ?thesis using map_of_Some_key by metis
  qed
  with tm show "\<exists>local_map. tm = [(''container_actions'', local_map)] \<and>
               (\<forall>L l. config_listings (PDict cfg) = Some L \<longrightarrow> l \<in> set L \<longrightarrow>
                  KStr (l_task l) \<in> fst ` set local_map)"
    by blast
qed

theorem parse_launcher_config_grouping_witness:
  "(\<exists>cfg tm imgs groups. example_v3 = PDict cfg
        \<and> parse_launcher_config None example_v3 = Inr (tm, imgs)
        \<and> map_of cfg ''task_group'' = Some (PDict groups)
        \<and> fst ` set tm = fst ` set groups
        \<and> fst ` set tm = {''model'', ''dataset''})
   \<and> (\<exists>tm imgs local_map. parse_launcher_config None example_v1 = Inr (tm, imgs)
        \<and> tm = [(''container_actions'', local_map)]
        \<and> KStr ''detectnet_v2'' \<in> fst ` set local_map
        \<and> KStr ''unet'' \<in> fst ` set local_map)"
proof
  obtain cfg where c: "example_v3 = PDict cfg"
    by (simp add: example_v3_def)
  have "\<not> isl (parse_launcher_config None example_v3)"
    by code_simp
  then obtain tm imgs where p: "parse_launcher_config None example_v3 = Inr (tm, imgs)"
    by (cases "parse_launcher_config None example_v3") auto
  have "map fst (fst (projr (parse_launcher_config None example_v3))) = [''model'', ''dataset'']"
    by code_simp
  then have "map fst tm = [''model'', ''dataset'']"
    by (simp add: p)
  then have "set (map fst tm) = set [''model'', ''dataset'']"
    by (rule arg_cong)
  then have m: "fst ` set tm = {''model'', ''dataset''}"
    by simp
  have "py_getitem example_v3 ''format_version'' = Inr (PFloat 3)"
    by code_simp
  then have v: "map_of cfg ''format_version'' = Some (PFloat 3)"
    unfolding c by (simp split: option.splits)
  from p have p': "parse_launcher_config None (PDict cfg) = Inr (tm, imgs)"
    unfolding c .
  from parse_launcher_config_grouping [OF p' v] obtain groups where
    g: "map_of cfg ''task_group'' = Some (PDict groups)" and k: "fst ` set tm = fst ` set groups"
    by auto
  from c p g k m
  show "\<exists>cfg tm imgs groups. example_v3 = PDict cfg
        \<and> parse_launcher_config None example_v3 = Inr (tm, imgs)
        \<and> map_of cfg ''task_group'' = Some (PDict groups)
        \<and> fst ` set tm = fst ` set groups
        \<and> fst ` set tm = {''model'', ''dataset''}"
    by blast
next
  obtain cfg where c: "example_v1 = PDict cfg"
    by (simp add: example_v1_def)
  have "\<not> isl (parse_launcher_config None example_v1)"
    by code_simp
  then obtain tm imgs where p: "parse_launcher_config None example_v1 = Inr (tm, imgs)"
    by (cases "parse_launcher_config None example_v1") auto
  have "py_getitem example_v1 ''format_version'' = Inr (PFloat 1)"
    by code_simp
  then have v: "map_of cfg ''format_version'' = Some (PFloat 1)"
    unfolding c by (simp split: option.splits)
  have "config_listings example_v1
          = Some [example_listing ''detectnet_v2'', example_listing ''unet'']"
    by code_simp
  then have l: "config_listings (PDict cfg)
          = Some [example_listing ''detectnet_v2'', example_listing ''unet'']"
    unfolding c .
  from p have p': "parse_launcher_config None (PDict cfg) = Inr (tm, imgs)"
    unfolding c .
  have n3: "\<not> eq_float (PFloat 1) 3"
    by simp
  from parse_launcher_config_grouping [OF p' v] n3 obtain local_map where
    t: "tm = [(''container_actions'', local_map)]"
    and a: "\<forall>L l. config_listings (PDict cfg) = Some L \<longrightarrow> l \<in> set L \<longrightarrow>
                  KStr (l_task l) \<in> fst ` set local_map"
    by blast
  have "KStr (l_task (example_listing ''detectnet_v2'')) \<in> fst ` set local_map"
    using a l by (metis list.set_intros(1))
  then have k1: "KStr ''detectnet_v2'' \<in> fst ` set local_map"
    by (simp add: example_listing_def)
  have "KStr (l_task (example_listing ''unet'')) \<in> fst ` set local_map"
    using a l by (metis list.set_intros(1) list.set_intros(2))
  then have k2: "KStr ''unet'' \<in> fst ` set local_map"
    by (simp add: example_listing_def)
  from p t k1 k2
  show "\<exists>tm imgs local_map. parse_launcher_config None example_v1 = Inr (tm, imgs)
        \<and> tm = [(''container_actions'', local_map)]
        \<and> KStr ''detectnet_v2'' \<in> fst ` set local_map
        \<and> KStr ''unet'' \<in> fst ` set local_map"
    by blast
qed

section \<open>A mounts file that is not valid\<close>

text \<open>
  C4. For every mounts file that exists and holds a JSON object, \<^verbatim>\<open>_get_mount_env_data\<close>
  raises, and so returns no bindings, when the object has a \<^verbatim>\<open>Mounts\<close> entry with a
  mount whose source path does not exist on the host, or a top-level key other than
  \<^verbatim>\<open>Mounts\<close>, \<^verbatim>\<open>Envs\<close> and \<^verbatim>\<open>DockerOptions\<close>, or no key \<^verbatim>\<open>Mounts\<close>.
\<close>

theorem get_mount_env_data_raises:
  assumes "path_exists fs (h_docker_mount_file h)"
    and "read_json fs (h_docker_mount_file h) = Inr (PDict data)"
    and "(\<exists>mounts kvs src. map_of data ''Mounts'' = Some (PList mounts) \<and> PDict kvs \<in> set mounts \<and>
            map_of kvs ''source'' = Some (PStr src) \<and>
            \<not> path_exists fs (realpath fs (expanduser fs src)))
         \<or> (\<exists>k. k \<in> set (map fst data) \<and> k \<notin> {''Mounts'', ''Envs'', ''DockerOptions''})
         \<or> ''Mounts'' \<notin> set (map fst data)"
  shows "\<exists>e. get_mount_env_data fs h = Inl e"
  using assms(3)
proof (elim disjE exE conjE)
  fix mounts kvs src
  assume m: "map_of data ''Mounts'' = Some (PList mounts)" and k: "PDict kvs \<in> set mounts"
    and s: "map_of kvs ''source'' = Some (PStr src)"
    and n: "\<not> path_exists fs (realpath fs (expanduser fs src))"
  from m have "(''Mounts'', PList mounts) \<in> set data" by (rule map_of_SomeD)
  then show ?thesis
    using mounts_item_missing_source [OF k s n]
    by (rule get_mount_env_data_fails [OF assms(1,2)])
next
  fix k
  assume k: "k \<in> set (map fst data)" and n: "k \<notin> {''Mounts'', ''Envs'', ''DockerOptions''}"
  from k obtain v where "(k, v) \<in> set data" by auto
  then show ?thesis
  proof (rule get_mount_env_data_fails [OF assms(1,2)])
    fix st show "\<exists>e. mounts_file_item fs (k, v) st = Inl e"
      using mounts_item_unknown_key [OF n] by simp
  qed
next
  assume "''Mounts'' \<notin> set (map fst data)"
  then show ?thesis using assms(1,2) by (simp add: get_mount_env_data_def)
qed

theorem get_mount_env_data_raises_witness:
  "path_exists (example_host [(''/home/user/.tao_mounts.json'', PDict example_mounts_file)] [])
     (h_docker_mount_file example_handler)
   \<and> read_json (example_host [(''/home/user/.tao_mounts.json'', PDict example_mounts_file)] [])
       (h_docker_mount_file example_handler) = Inr (PDict example_mounts_file)
   \<and> map_of example_mounts_file ''Mounts'' = Some (PList [example_mount ''/data'' ''/workspace/data''])
   \<and> \<not> path_exists (example_host [(''/home/user/.tao_mounts.json'', PDict example_mounts_file)] [])
         ''/data''
   \<and> (\<exists>e. get_mount_env_data
              (example_host [(''/home/user/.tao_mounts.json'', PDict example_mounts_file)] [])
              example_handler = Inl e)"
proof -
  let ?fs = "example_host [(''/home/user/.tao_mounts.json'', PDict example_mounts_file)] []"
  have a: "path_exists ?fs (h_docker_mount_file example_handler)"
    by code_simp
  have b: "read_json ?fs (h_docker_mount_file example_handler) = Inr (PDict example_mounts_file)"
    by code_simp
  have m: "map_of example_mounts_file ''Mounts'' = Some (PList [example_mount ''/data'' ''/workspace/data''])"
    by (simp add: example_mounts_file_def)
  have n: "\<not> path_exists ?fs ''/data''"
    by code_simp
  have r: "realpath ?fs (expanduser ?fs ''/data'') = ''/data''"
    by (simp add: example_host_def)
  have s: "map_of [(''source'', PStr ''/data''), (''destination'', PStr ''/workspace/data'')] ''source''
             = Some (PStr ''/data'')"
    by simp
  have c: "(\<exists>mounts kvs src. map_of example_mounts_file ''Mounts'' = Some (PList mounts) \<and>
              PDict kvs \<in> set mounts \<and> map_of kvs ''source'' = Some (PStr src) \<and>
              \<not> path_exists ?fs (realpath ?fs (expanduser ?fs src)))
           \<or> (\<exists>k. k \<in> set (map fst example_mounts_file) \<and> k \<notin> {''Mounts'', ''Envs'', ''DockerOptions''})
           \<or> ''Mounts'' \<notin> set (map fst example_mounts_file)"
  proof (intro disjI1 exI conjI)
    show "map_of example_mounts_file ''Mounts'' = Some (PList [example_mount ''/data'' ''/workspace/data''])"
      by (rule m)
    show "PDict [(''source'', PStr ''/data''), (''destination'', PStr ''/workspace/data'')]
            \<in> set [example_mount ''/data'' ''/workspace/data'']"
      by (simp add: example_mount_def)
    show "map_of [(''source'', PStr ''/data''), (''destination'', PStr ''/workspace/data'')] ''source''
            = Some (PStr ''/data'')"
      by (rule s)
    show "\<not> path_exists ?fs (realpath ?fs (expanduser ?fs ''/data''))"
      using n r by simp
  qed
  from get_mount_env_data_raises [OF a b c] a b m n show ?thesis
    by simp
qed

section \<open>The started container is stopped\<close>

text \<open>
  C5. For every invocation of \<^verbatim>\<open>run_container\<close> in which a container was started, the
  last call that \<^verbatim>\<open>run_container\<close> makes before it completes is the stop of that
  container. This holds however the forwarded command ends: when it succeeds, when it
  fails (the clean-up of the \<^verbatim>\<open>except\<close> clause and the \<^verbatim>\<open>finally\<close> clause), and when
  \<^verbatim>\<open>run_container\<close> itself ends with an exception.
\<close>

theorem run_container_stops_started_container:
  assumes "Start img cid \<in> set (snd (run_container fs eng h cmd))"
  shows "\<exists>before after. snd (run_container fs eng h cmd) = before @ Start img cid # after @ [Stop cid]"
proof -
  from run_container_calls [of fs h eng cmd] assms
  obtain present rest where
    calls: "snd (run_container fs eng h cmd) = (if present then [] else snd (pull fs eng h)) @ rest"
    and rest: "stopped_run eng rest"
    by auto
  from assms calls have "Start img cid \<in> set rest"
    by (auto simp: pull_calls split: if_splits)
  with rest obtain c cl stops where "rest = Start img cid # Exec cl # stops @ [Stop cid]"
    by (auto simp: stopped_run_def)
  with calls have "snd (run_container fs eng h cmd)
      = (if present then [] else snd (pull fs eng h)) @ Start img cid # (Exec cl # stops) @ [Stop cid]"
    by simp
  then show ?thesis by blast
qed

theorem run_container_stops_started_container_witness:
  "Start ''nvcr.io/nvidia/tao/tao-toolkit:5.0.0-tf2.11.0'' ''4f1c9a7d02b3''
     \<in> set (snd (run_container (example_host [] [])
                   (example_engine [] (CalledProcessError (Some ''failed'')))
                   example_handler ''detectnet_v2 train''))
   \<and> (\<exists>before after.
         snd (run_container (example_host [] [])
                (example_engine [] (CalledProcessError (Some ''failed'')))
                example_handler ''detectnet_v2 train'')
           = before @ Start ''nvcr.io/nvidia/tao/tao-toolkit:5.0.0-tf2.11.0'' ''4f1c9a7d02b3''
               # after @ [Stop ''4f1c9a7d02b3''])"
proof
  show a: "Start ''nvcr.io/nvidia/tao/tao-toolkit:5.0.0-tf2.11.0'' ''4f1c9a7d02b3''
     \<in> set (snd (run_container (example_host [] [])
                   (example_engine [] (CalledProcessError (Some ''failed'')))
                   example_handler ''detectnet_v2 train''))"
    by code_simp
  show "\<exists>before after.
         snd (run_container (example_host [] [])
                (example_engine [] (CalledProcessError (Some ''failed'')))
                example_handler ''detectnet_v2 train'')
           = before @ Start ''nvcr.io/nvidia/tao/tao-toolkit:5.0.0-tf2.11.0'' ''4f1c9a7d02b3''
               # after @ [Stop ''4f1c9a7d02b3'']"
    by (rule run_container_stops_started_container [OF a])
qed

section \<open>The image is pulled when it is not there\<close>

text \<open>
  C6. \<^verbatim>\<open>run_container\<close> of an initialised handler pulls the image if and only if the
  image name \<^verbatim>\<open>registry/name:tag\<close> is not among the tags of the local images at the
  time of the invocation. The pull, when there is one, is the first call; no other pull
  follows, so when the image is present no pull is performed before the container is
  started, nor after.
\<close>

theorem run_container_pulls_iff_absent:
  assumes "initialized h"
  shows "\<exists>rest. snd (run_container fs eng h cmd)
           = (if list_ex (\<lambda>tags. full_image_name fs h \<in> set tags) (repo_tags eng) then []
              else [Pull (py_str fs (h_docker_registry h) @ ''/'' @ py_str fs (h_image_name h))
                         (h_docker_tag h)]) @ rest
         \<and> (\<forall>repo tag. Pull repo tag \<notin> set rest)"
proof -
  from run_container_calls [of fs h eng cmd] check_image_exists_initialized [OF assms, of fs "repo_tags eng"]
  obtain rest where
    "snd (run_container fs eng h cmd)
       = (if list_ex (\<lambda>tags. full_image_name fs h \<in> set tags) (repo_tags eng) then []
          else snd (pull fs eng h)) @ rest"
    and "stopped_run eng rest"
    by auto
  then show ?thesis using stopped_run_no_pull [of eng rest] by (auto simp: pull_calls)
qed

theorem run_container_pulls_iff_absent_witness:
  "initialized example_handler
   \<and> (\<exists>rest. snd (run_container (example_host [] []) (example_engine [] Returned)
                     example_handler ''detectnet_v2 train'')
                = [Pull ''nvcr.io/nvidia/tao/tao-toolkit'' (PStr ''5.0.0-tf2.11.0'')] @ rest
          \<and> (\<forall>repo tag. Pull repo tag \<notin> set rest))
   \<and> (\<exists>rest. snd (run_container (example_host [] [])
                     (example_engine [[''nvcr.io/nvidia/tao/tao-toolkit:5.0.0-tf2.11.0'']] Returned)
                     example_handler ''detectnet_v2 train'')
                = rest
          \<and> (\<forall>repo tag. Pull repo tag \<notin> set rest))"
proof -
  have a: "initialized example_handler"
    by code_simp
  have n: "full_image_name (example_host [] []) example_handler
             = ''nvcr.io/nvidia/tao/tao-toolkit:5.0.0-tf2.11.0''"
    by code_simp
  have r: "py_str (example_host [] []) (h_docker_registry example_handler) @ ''/''
             @ py_str (example_host [] []) (h_image_name example_handler)
             = ''nvcr.io/nvidia/tao/tao-toolkit''"
    by code_simp
  have t: "h_docker_tag example_handler = PStr ''5.0.0-tf2.11.0''"
    by code_simp
  have e1: "repo_tags (example_engine [] Returned) = []"
    by (simp add: example_engine_def)
  have e2: "repo_tags (example_engine [[''nvcr.io/nvidia/tao/tao-toolkit:5.0.0-tf2.11.0'']] Returned)
              = [[''nvcr.io/nvidia/tao/tao-toolkit:5.0.0-tf2.11.0'']]"
    by (simp add: example_engine_def)
  from run_container_pulls_iff_absent
         [OF a, of "example_host [] []" "example_engine [] Returned" "''detectnet_v2 train''"]
       run_container_pulls_iff_absent
         [OF a, of "example_host [] []"
            "example_engine [[''nvcr.io/nvidia/tao/tao-toolkit:5.0.0-tf2.11.0'']] Returned"
            "''detectnet_v2 train''"]
       a
  show ?thesis
    unfolding n r t e1 e2 by simp
qed

section \<open>The instance is read, not written\<close>

text \<open>
  C7. No operation of an instance changes the instance: after \<^verbatim>\<open>launch_command\<close> (of a
  \<^verbatim>\<open>LocalInstance\<close> and of a \<^verbatim>\<open>WHLInstance\<close>), \<^verbatim>\<open>list_running_jobs\<close>,
  \<^verbatim>\<open>kill_containers\<close> and \<^verbatim>\<open>print_information\<close>, whether they return or raise, the
  instance is the one before the operation. So its \<^verbatim>\<open>task_map\<close> is the same, and with
  it the name, docker_image, docker_tag, docker_registry and docker_digest of every Task
  in it.
\<close>

theorem instance_operations_keep_task_map:
  "fst (snd (LocalInstance_launch_command fs eng self grp task args)) = self
   \<and> fst (snd (WHLInstance_launch_command fs eng self grp task args)) = self
   \<and> fst (snd (list_running_jobs fs eng self)) = self
   \<and> fst (snd (kill_containers fs eng self container_ids kill_all)) = self
   \<and> fst (snd (print_information fs self verbose)) = self
   \<and> the_instance (fst (snd (launch_command fs eng l grp task args))) = the_instance l"
proof (intro conjI)
  show loc: "fst (snd (LocalInstance_launch_command fs eng self grp task args)) = self" for self
    by (simp add: LocalInstance_launch_command_def instance_task_self
        split: option.splits cli_args.splits)
  show whl: "fst (snd (WHLInstance_launch_command fs eng self grp task args)) = self" for self
    by (simp add: WHLInstance_launch_command_def split: option.splits cli_args.splits)
  show "fst (snd (list_running_jobs fs eng self)) = self"
    by (simp add: list_running_jobs_def Let_def)
  show "fst (snd (kill_containers fs eng self container_ids kill_all)) = self"
    by (simp add: kill_containers_def Let_def)
  show "fst (snd (print_information fs self verbose)) = self"
    by (simp add: print_information_def)
  show "the_instance (fst (snd (launch_command fs eng l grp task args))) = the_instance l"
  proof (cases l)
    case (LocalInstance s)
    then show ?thesis using loc [of s]
      by (cases "LocalInstance_launch_command fs eng s grp task args") simp
  next
    case (WHLInstance s)
    then show ?thesis using whl [of s]
      by (cases "WHLInstance_launch_command fs eng s grp task args") simp
  qed
qed

theorem instance_operations_keep_task_map_witness:
  "task_map (fst (snd (kill_containers (example_host [] []) (example_engine [] Returned)
                         example_local (PList []) (PBool True))))
     = example_task_map ''nvcr.io''
   \<and> task_map (fst (snd (LocalInstance_launch_command (example_host [] [])
                           (example_engine [] Returned) example_local ''container_actions''
                           (Some ''unet'') (ArgList [''train'']))))
     = example_task_map ''nvcr.io''"
  using instance_operations_keep_task_map
          [of "example_host [] []" "example_engine [] Returned" example_local
              "''container_actions''" "Some ''unet''" "ArgList [''train'']" "PList []" "PBool True"]
  by (simp add: example_local_def TAOInstance_init_def)

section \<open>The built-in task groups\<close>

text \<open>
  C8 does not hold as stated: with \<^verbatim>\<open>TAO_DOCKER_DISABLE=1\<close>, \<^verbatim>\<open>get_launcher\<close> returns
  a \<^verbatim>\<open>WHLInstance\<close>, whose supported task groups are those of the configuration only,
  and its \<^verbatim>\<open>launch_command\<close> raises NotImplementedError for the task group
  \<^verbatim>\<open>list\<close>.
\<close>

theorem whl_instance_rejects_list:
  "get_launcher
       (example_host [(example_config_path, example_v1)] [(''TAO_DOCKER_DISABLE'', ''1'')])
       example_config_path
     = Inr (WHLInstance example_whl, [''container_actions''])
   \<and> fst (launch_command
           (example_host [(example_config_path, example_v1)] [(''TAO_DOCKER_DISABLE'', ''1'')])
           (example_engine [] Returned) (WHLInstance example_whl) ''list'' None (Namespace []))
     = Inl NotImplementedError"
  by code_simp

text \<open>
  C8, amended. The built-in task groups \<^verbatim>\<open>list\<close>, \<^verbatim>\<open>stop\<close> and \<^verbatim>\<open>info\<close> are part of
  the command line of the docker-based launcher only. For every instance that
  \<^verbatim>\<open>get_launcher\<close> returns and every one of these task groups that is not a task group
  of the configuration: a \<^verbatim>\<open>LocalInstance\<close> has the group among its supported task
  groups, and its \<^verbatim>\<open>launch_command\<close>, given the parsed arguments, is the built-in
  operation of that group: \<^verbatim>\<open>list_running_jobs\<close> for \<^verbatim>\<open>list\<close>,
  \<^verbatim>\<open>kill_containers\<close> with the attributes \<^verbatim>\<open>container_id\<close> and \<^verbatim>\<open>all\<close> for
  \<^verbatim>\<open>stop\<close> (AttributeError when the arguments lack one of them), and
  \<^verbatim>\<open>print_information\<close> with the attribute \<^verbatim>\<open>verbose\<close> for \<^verbatim>\<open>info\<close>. The
  \<^verbatim>\<open>launch_command\<close> of a \<^verbatim>\<open>WHLInstance\<close> raises NotImplementedError.
\<close>

theorem builtin_groups_dispatch:
  assumes "get_launcher fs config_file = Inr (l, supported)"
    and "grp \<in> set INSTANCE_HANDLER_TASKS"
    and "grp \<notin> set (map fst (task_map (the_instance l)))"
  shows "case l of
           LocalInstance self \<Rightarrow>
             grp \<in> set supported \<and>
             LocalInstance_launch_command fs eng self grp task (Namespace ns)
               = (if grp = ''list'' then
                    (case list_running_jobs fs eng self of
                       (r, self', calls) \<Rightarrow> (and_then r (\<lambda>table. Inr ()), self', calls))
                  else if grp = ''stop'' then
                    (case and_then (getattr ns ''container_id'') (\<lambda>ids.
                          and_then (getattr ns ''all'') (\<lambda>kill_all. Inr (ids, kill_all))) of
                       Inl e \<Rightarrow> (Inl e, self, [])
                     | Inr a \<Rightarrow> kill_containers fs eng self (fst a) (snd a))
                  else
                    (case getattr ns ''verbose'' of
                       Inl e \<Rightarrow> (Inl e, self, [])
                     | Inr verbose \<Rightarrow>
                         (case print_information fs self verbose of
                            (r, self', calls) \<Rightarrow> (and_then r (\<lambda>b. Inr ()), self', calls))))
         | WHLInstance self \<Rightarrow>
             fst (WHLInstance_launch_command fs eng self grp task args) = Inl NotImplementedError"
proof (cases l)
  case (LocalInstance self)
  from get_launcher_handler_tasks [OF assms(1)] LocalInstance
  have h: "instance_handler_tasks self = INSTANCE_HANDLER_TASKS" by simp
  from get_launcher_local_supported assms(1,2) LocalInstance have s: "grp \<in> set supported"
    by blast
  from assms(3) LocalInstance have n: "grp \<notin> set (map fst (task_map self))" by simp
  from assms(2) have g: "grp = ''list'' \<or> grp = ''stop'' \<or> grp = ''info''"
    by (simp add: INSTANCE_HANDLER_TASKS_def)
  have "LocalInstance_launch_command fs eng self grp task (Namespace ns)
          = instance_task fs eng self grp ns"
    using h n assms(2) by (simp add: LocalInstance_launch_command_def)
  also have "\<dots> = (if grp = ''list'' then
                    (case list_running_jobs fs eng self of
                       (r, self', calls) \<Rightarrow> (and_then r (\<lambda>table. Inr ()), self', calls))
                  else if grp = ''stop'' then
                    (case and_then (getattr ns ''container_id'') (\<lambda>ids.
                          and_then (getattr ns ''all'') (\<lambda>kill_all. Inr (ids, kill_all))) of
                       Inl e \<Rightarrow> (Inl e, self, [])
                     | Inr a \<Rightarrow> kill_containers fs eng self (fst a) (snd a))
                  else
                    (case getattr ns ''verbose'' of
                       Inl e \<Rightarrow> (Inl e, self, [])
                     | Inr verbose \<Rightarrow>
                         (case print_information fs self verbose of
                            (r, self', calls) \<Rightarrow> (and_then r (\<lambda>b. Inr ()), self', calls))))"
    using g unfolding instance_task_def by presburger
  finally show ?thesis using LocalInstance s by simp
next
  case (WHLInstance self)
  then show ?thesis using assms(3) by (simp add: WHLInstance_launch_command_def)
qed

theorem builtin_groups_dispatch_witness:
  "get_launcher (example_host [(example_config_path, example_v1)] []) example_config_path
     = Inr (LocalInstance example_local, [''list'', ''stop'', ''info'', ''container_actions''])
   \<and> ''stop'' \<in> set INSTANCE_HANDLER_TASKS
   \<and> ''stop'' \<notin> set (map fst (task_map example_local))
   \<and> ''stop'' \<in> set [''list'', ''stop'', ''info'', ''container_actions'']
   \<and> LocalInstance_launch_command (example_host [(example_config_path, example_v1)] [])
         (example_engine [] Returned) example_local ''stop'' None
         (Namespace [(''container_id'', PNone), (''all'', PBool True)])
       = kill_containers (example_host [(example_config_path, example_v1)] [])
           (example_engine [] Returned) example_local PNone (PBool True)
   \<and> kill_containers (example_host [(example_config_path, example_v1)] [])
           (example_engine [] Returned) example_local PNone (PBool True)
       = (Inr (), example_local, [])"
proof -
  have a: "get_launcher (example_host [(example_config_path, example_v1)] []) example_config_path
     = Inr (LocalInstance example_local, [''list'', ''stop'', ''info'', ''container_actions''])"
    by code_simp
  have b: "''stop'' \<in> set INSTANCE_HANDLER_TASKS"
    by (simp add: INSTANCE_HANDLER_TASKS_def)
  have c: "''stop'' \<notin> set (map fst (task_map example_local))"
    by (simp add: example_local_def TAOInstance_init_def example_task_map_def)
  have c': "''stop'' \<notin> set (map fst (task_map (the_instance (LocalInstance example_local))))"
    using c by simp
  have d: "kill_containers (example_host [(example_config_path, example_v1)] [])
           (example_engine [] Returned) example_local PNone (PBool True)
       = (Inr (), example_local, [])"
    by code_simp
  from builtin_groups_dispatch
         [OF a b c', of "example_engine [] Returned" None
            "[(''container_id'', PNone), (''all'', PBool True)]"]
       a b c d
  show ?thesis by (simp add: getattr_def)
qed

section \<open>Task.from_config and the digest\<close>

text \<open>
  C9. A configuration dictionary that has the key \<^verbatim>\<open>docker_digest\<close> fails the
  key-validation assertion of \<^verbatim>\<open>Task.from_config\<close>, which admits the keys
  \<^verbatim>\<open>name\<close>, \<^verbatim>\<open>docker_image\<close>, \<^verbatim>\<open>docker_tag\<close> and \<^verbatim>\<open>docker_registry\<close> only, so
  the call raises AssertionError; and whenever \<^verbatim>\<open>from_config\<close> does return a Task,
  its \<^verbatim>\<open>docker_digest\<close> is \<^verbatim>\<open>None\<close>.
\<close>

theorem from_config_rejects_docker_digest:
  "(''docker_digest'' \<in> fst ` set kvs \<longrightarrow> from_config ov (PDict kvs) = Inl AssertionError)
   \<and> (from_config ov cfg = Inr t \<longrightarrow> docker_digest t = PNone)"
proof
  show "''docker_digest'' \<in> fst ` set kvs \<longrightarrow> from_config ov (PDict kvs) = Inl AssertionError"
    by (auto simp: list_all_iff mandatory_args_def)
next
  show "from_config ov cfg = Inr t \<longrightarrow> docker_digest t = PNone"
  proof
    assume r: "from_config ov cfg = Inr t"
    then obtain kvs where cfg: "cfg = PDict kvs"
      by (cases cfg) simp_all
    from r cfg have ok: "list_all (\<lambda>key. key \<in> set mandatory_args) (map fst kvs)"
      by (simp split: if_splits)
    then have "''docker_digest'' \<notin> set (map fst kvs)"
      by (auto simp: list_all_iff mandatory_args_def)
    then have "map_of kvs ''docker_digest'' = None"
      by (simp add: map_of_eq_None_iff)
    with r cfg ok show "docker_digest t = PNone"
      by (auto simp: Task_init_def and_then_eq_Inr)
  qed
qed

theorem from_config_rejects_docker_digest_witness:
  "from_config None (PDict [(''name'', PStr ''train''), (''docker_digest'', PStr ''sha256:0'')])
     = Inl AssertionError
   \<and> from_config None (PDict [(''name'', PStr ''train''), (''docker_image'', PStr ''tao''),
        (''docker_tag'', PStr ''v1''), (''docker_registry'', PStr ''nvcr.io'')])
     = Inr \<lparr> name = PStr ''train'', docker_image = PStr ''tao'', docker_tag = PStr ''v1'',
             docker_registry = PStr ''nvcr.io'', docker_digest = PNone \<rparr>
   \<and> docker_digest \<lparr> name = PStr ''train'', docker_image = PStr ''tao'', docker_tag = PStr ''v1'',
             docker_registry = PStr ''nvcr.io'', docker_digest = PNone \<rparr> = PNone"
  using from_config_rejects_docker_digest
    [of "[(''name'', PStr ''train''), (''docker_digest'', PStr ''sha256:0'')]" None
        "PDict [(''name'', PStr ''train''), (''docker_image'', PStr ''tao''),
                (''docker_tag'', PStr ''v1''), (''docker_registry'', PStr ''nvcr.io'')]"
        "\<lparr> name = PStr ''train'', docker_image = PStr ''tao'', docker_tag = PStr ''v1'',
           docker_registry = PStr ''nvcr.io'', docker_digest = PNone \<rparr>"]
  by (simp add: mandatory_args_def Task_init_def)

section \<open>The volumes are read-write\<close>

text \<open>
  C10 does not hold as stated: the volumes are a dict keyed by the real path of the
  source, so of two mount descriptors with the same source only the later one is bound.
  With the sources \<^verbatim>\<open>/data\<close>, \<^verbatim>\<open>/data\<close> and the destinations \<^verbatim>\<open>/a\<close>, \<^verbatim>\<open>/b\<close> the
  volumes map binds \<^verbatim>\<open>/data\<close> to \<^verbatim>\<open>/b\<close>, and nothing to \<^verbatim>\<open>/a\<close>, the
  destination of the first descriptor.
\<close>

theorem formatted_mounts_same_source:
  "formatted_mounts (example_host [] [])
       (PList [example_mount ''/data'' ''/a'', example_mount ''/data'' ''/b''])
     = Inr [(''/data'', \<lparr> bind = ''/b'', mode = ''rw'' \<rparr>)]
   \<and> mount_path (example_host [] []) (example_mount ''/data'' ''/a'') ''source'' = Inr ''/data''
   \<and> mount_path (example_host [] []) (example_mount ''/data'' ''/a'') ''destination'' = Inr ''/a''
   \<and> map_of [(''/data'', \<lparr> bind = ''/b'', mode = ''rw'' \<rparr>)] ''/data''
       \<noteq> Some \<lparr> bind = ''/a'', mode = ''rw'' \<rparr>"
  by code_simp

text \<open>
  C10, amended. \<^verbatim>\<open>formatted_mounts\<close> assigns the access mode \<^verbatim>\<open>rw\<close> to every volume
  binding it produces: for every list of mount descriptors for which it returns, every
  binding of the returned volumes map has the mode \<^verbatim>\<open>rw\<close>, whatever the descriptors
  say, and the map binds the real path of the source of every descriptor that no later
  descriptor shares its source with to the real path of that descriptor's destination.
\<close>

theorem formatted_mounts_binds_rw:
  assumes "formatted_mounts fs (PList (before @ m # after)) = Inr volumes"
    and "\<forall>m'\<in>set after. mount_path fs m' ''source'' \<noteq> mount_path fs m ''source''"
  shows "\<exists>src dst. mount_path fs m ''source'' = Inr src \<and> mount_path fs m ''destination'' = Inr dst \<and>
           map_of volumes src = Some \<lparr> bind = dst, mode = ''rw'' \<rparr> \<and>
           (\<forall>v\<in>snd ` set volumes. mode v = ''rw'')"
proof -
  from assms(1) have run: "for_each (volume_round fs) (before @ m # after) [] = Inr volumes"
    by simp
  then obtain v0 where "for_each (volume_round fs) before [] = Inr v0"
    and "for_each (volume_round fs) (m # after) v0 = Inr volumes"
    by (auto simp: for_each_append and_then_eq_Inr)
  then obtain v1 where b: "volume_round fs m v0 = Inr v1"
    and r: "for_each (volume_round fs) after v1 = Inr volumes"
    by (auto simp: and_then_eq_Inr)
  from volume_round_Inr [OF b] obtain src dst where s: "mount_path fs m ''source'' = Inr src"
    and d: "mount_path fs m ''destination'' = Inr dst"
    and v1: "v1 = AList.update src \<lparr> bind = dst, mode = ''rw'' \<rparr> v0"
    by blast
  have "map_of v1 src = Some \<lparr> bind = dst, mode = ''rw'' \<rparr>" by (simp add: v1 update_conv')
  moreover have "map_of volumes src = map_of v1 src"
    using volumes_keep [OF r] assms(2) s by simp
  moreover have "\<forall>v\<in>snd ` set volumes. mode v = ''rw''"
    using volumes_mode [OF run] by simp
  ultimately show ?thesis using s d by simp
qed

theorem formatted_mounts_binds_rw_witness:
  "formatted_mounts (example_host [] [])
       (PList ([] @ example_mount ''/data'' ''/workspace/data''
                  # [example_mount ''/results'' ''/workspace/results'']))
     = Inr [(''/data'', \<lparr> bind = ''/workspace/data'', mode = ''rw'' \<rparr>),
            (''/results'', \<lparr> bind = ''/workspace/results'', mode = ''rw'' \<rparr>)]
   \<and> mount_path (example_host [] []) (example_mount ''/results'' ''/workspace/results'') ''source''
       \<noteq> mount_path (example_host [] []) (example_mount ''/data'' ''/workspace/data'') ''source''
   \<and> (\<exists>src dst.
         mount_path (example_host [] []) (example_mount ''/data'' ''/workspace/data'') ''source''
           = Inr src \<and>
         mount_path (example_host [] []) (example_mount ''/data'' ''/workspace/data'') ''destination''
           = Inr dst \<and>
         map_of [(''/data'', \<lparr> bind = ''/workspace/data'', mode = ''rw'' \<rparr>),
                 (''/results'', \<lparr> bind = ''/workspace/results'', mode = ''rw'' \<rparr>)] src
           = Some \<lparr> bind = dst, mode = ''rw'' \<rparr> \<and>
         (\<forall>v\<in>snd ` set [(''/data'', \<lparr> bind = ''/workspace/data'', mode = ''rw'' \<rparr>),
                          (''/results'', \<lparr> bind = ''/workspace/results'', mode = ''rw'' \<rparr>)].
            mode v = ''rw''))"
proof (intro conjI)
  show a: "formatted_mounts (example_host [] [])
       (PList ([] @ example_mount ''/data'' ''/workspace/data''
                  # [example_mount ''/results'' ''/workspace/results'']))
     = Inr [(''/data'', \<lparr> bind = ''/workspace/data'', mode = ''rw'' \<rparr>),
            (''/results'', \<lparr> bind = ''/workspace/results'', mode = ''rw'' \<rparr>)]"
    by code_simp
  show b: "mount_path (example_host [] []) (example_mount ''/results'' ''/workspace/results'') ''source''
       \<noteq> mount_path (example_host [] []) (example_mount ''/data'' ''/workspace/data'') ''source''"
    by code_simp
  from b have c: "\<forall>m'\<in>set [example_mount ''/results'' ''/workspace/results''].
      mount_path (example_host [] []) m' ''source''
        \<noteq> mount_path (example_host [] []) (example_mount ''/data'' ''/workspace/data'') ''source''"
    by simp
  show "\<exists>src dst.
         mount_path (example_host [] []) (example_mount ''/data'' ''/workspace/data'') ''source''
           = Inr src \<and>
         mount_path (example_host [] []) (example_mount ''/data'' ''/workspace/data'') ''destination''
           = Inr dst \<and>
         map_of [(''/data'', \<lparr> bind = ''/workspace/data'', mode = ''rw'' \<rparr>),
                 (''/results'', \<lparr> bind = ''/workspace/results'', mode = ''rw'' \<rparr>)] src
           = Some \<lparr> bind = dst, mode = ''rw'' \<rparr> \<and>
         (\<forall>v\<in>snd ` set [(''/data'', \<lparr> bind = ''/workspace/data'', mode = ''rw'' \<rparr>),
                          (''/results'', \<lparr> bind = ''/workspace/results'', mode = ''rw'' \<rparr>)].
            mode v = ''rw'')"
    by (rule formatted_mounts_binds_rw [OF a c])
qed

end
